theory Spec2Isabelle
  imports Main
begin

section \<open>JavaScript strings and numbers, as far as the action uses them\<close>

text \<open>
  Strings are lists of code units; the model covers code units below 256, which is
  where every character the action inspects lives (digits, \<open>+\<close>, \<open>.\<close>, \<open>v\<close>, line
  feed, white space). \<open>undefined\<close> and \<open>null\<close> are \<open>None\<close>.
\<close>

definition is_js_space :: "char \<Rightarrow> bool" where
  \<comment> \<open>WhiteSpace and LineTerminator of ECMAScript, below code unit 256\<close>
  "is_js_space c =
     (c = CHR 0x09 \<or> c = CHR 0x0A \<or> c = CHR 0x0B \<or> c = CHR 0x0C \<or> c = CHR 0x0D
      \<or> c = CHR 0x20 \<or> c = CHR 0xA0)"

definition trim :: "string \<Rightarrow> string" where
  \<comment> \<open>\<open>String.prototype.trim\<close>\<close>
  "trim s = rev (dropWhile is_js_space (rev (dropWhile is_js_space s)))"

fun split_on :: "char \<Rightarrow> string \<Rightarrow> string list" where
  \<comment> \<open>\<open>s.split(c)\<close> for a one-character separator: every occurrence splits\<close>
  "split_on c [] = [] # []"
| "split_on c (x # xs) =
     (if x = c then [] # split_on c xs
      else (case split_on c xs of [] \<Rightarrow> [x] # [] | w # ws \<Rightarrow> (x # w) # ws))"

definition nth_opt :: "'a list \<Rightarrow> nat \<Rightarrow> 'a option" where
  \<comment> \<open>array indexing: out of range is \<open>undefined\<close>\<close>
  "nth_opt xs i = (if i < length xs then Some (xs ! i) else None)"

definition starts_with :: "string \<Rightarrow> string \<Rightarrow> bool" where
  "starts_with s p = (take (length p) s = p)"

definition is_digit :: "char \<Rightarrow> bool" where
  "is_digit c = (48 \<le> (of_char c :: nat) \<and> (of_char c :: nat) \<le> 57)"

definition digit_val :: "char \<Rightarrow> nat" where
  "digit_val c = of_char c - 48"

definition digits_val :: "string \<Rightarrow> nat" where
  "digits_val z = foldl (\<lambda>a c. 10 * a + digit_val c) 0 z"

definition digit_char :: "nat \<Rightarrow> char" where
  "digit_char d = char_of (48 + d)"

fun dec :: "nat \<Rightarrow> string" where
  \<comment> \<open>the decimal numeral of a natural number\<close>
  "dec n = (if n < 10 then [digit_char n] else dec (n div 10) @ [digit_char (n mod 10)])"

declare dec.simps [simp del]

text \<open>
  A Number is an IEEE double. The action only ever holds integral doubles, \<open>NaN\<close> and the
  infinities: \<open>Num i\<close> is the double whose value is the integer \<open>i\<close> (negative zero is
  identified with zero: it is falsy, prints as \<open>0\<close> and compares like \<open>0\<close>).
\<close>

datatype jsnum = NaN | Num int | PosInf | NegInf

fun bit_length :: "nat \<Rightarrow> nat" where
  "bit_length n = (if n = 0 then 0 else Suc (bit_length (n div 2)))"

declare bit_length.simps [simp del]

definition round_nat :: "nat \<Rightarrow> nat option" where
  \<comment> \<open>round to the nearest double, ties to even; \<open>None\<close> is overflow to infinity\<close>
  "round_nat n =
     (if n < 2 ^ 53 then Some n
      else let e = bit_length n - 53;
               q = n div 2 ^ e;
               r = n mod 2 ^ e;
               h = 2 ^ (e - 1);
               q' = (if h < r \<or> (r = h \<and> odd q) then q + 1 else q);
               v = q' * 2 ^ e
           in if 2 ^ 1024 \<le> v then None else Some v)"

definition dbl :: "int \<Rightarrow> jsnum" where
  \<comment> \<open>the Number nearest to a mathematical integer\<close>
  "dbl i =
     (case round_nat (nat \<bar>i\<bar>) of
        None \<Rightarrow> (if i < 0 then NegInf else PosInf)
      | Some v \<Rightarrow> Num (if i < 0 then - int v else int v))"

definition js_add1 :: "jsnum \<Rightarrow> jsnum" where
  \<comment> \<open>\<open>x + 1\<close>\<close>
  "js_add1 x = (case x of Num i \<Rightarrow> dbl (i + 1) | _ \<Rightarrow> x)"

definition js_lt :: "jsnum \<Rightarrow> jsnum \<Rightarrow> bool" where
  \<comment> \<open>\<open>x < y\<close>: false as soon as one side is \<open>NaN\<close>\<close>
  "js_lt x y =
     (case (x, y) of
        (NaN, _) \<Rightarrow> False
      | (_, NaN) \<Rightarrow> False
      | (Num a, Num b) \<Rightarrow> a < b
      | (NegInf, NegInf) \<Rightarrow> False
      | (NegInf, _) \<Rightarrow> True
      | (_, PosInf) \<Rightarrow> y \<noteq> x
      | _ \<Rightarrow> False)"

definition or_zero :: "jsnum \<Rightarrow> jsnum" where
  \<comment> \<open>\<open>x || 0\<close>: \<open>NaN\<close> and zero are falsy\<close>
  "or_zero x = (if x = NaN \<or> x = Num 0 then Num 0 else x)"

definition parseInt :: "string \<Rightarrow> jsnum" where
  \<comment> \<open>\<open>parseInt(s, 10)\<close>: white space, an optional sign, then the longest run of digits\<close>
  "parseInt s =
     (let s1 = dropWhile is_js_space s;
          neg = (case s1 of c # _ \<Rightarrow> c = CHR ''-'' | [] \<Rightarrow> False);
          s2 = (case s1 of c # r \<Rightarrow> if c = CHR ''-'' \<or> c = CHR ''+'' then r else s1 | [] \<Rightarrow> s1);
          z = takeWhile is_digit s2
      in if z = [] then NaN
         else dbl ((if neg then - 1 else 1) * int (digits_val z)))"

definition parseInt_opt :: "string option \<Rightarrow> jsnum" where
  \<comment> \<open>\<open>parseInt\<close> converts its argument to a string first\<close>
  "parseInt_opt x = parseInt (case x of None \<Rightarrow> ''undefined'' | Some s \<Rightarrow> s)"

definition shortest_decimal :: "nat \<Rightarrow> nat" where
  \<comment> \<open>Number::toString picks the decimal with the fewest significant digits that still
      rounds to the double, the closest one if there are two\<close>
  "shortest_decimal x =
     (let d = length (dec x);
          cand = (\<lambda>k. let p = 10 ^ (d - k);
                          lo = (x div p) * p;
                          hi = lo + p;
                          oklo = (round_nat lo = Some x);
                          okhi = (round_nat hi = Some x)
                      in if oklo \<and> okhi
                         then [if x - lo < hi - x \<or> (x - lo = hi - x \<and> even (x div p))
                               then lo else hi]
                         else if oklo then [lo] else if okhi then [hi] else [])
      in case concat (map cand [1..<18]) of [] \<Rightarrow> x | v # _ \<Rightarrow> v)"

definition strip_zeros :: "string \<Rightarrow> string" where
  "strip_zeros s = rev (dropWhile (\<lambda>c. c = CHR ''0'') (rev s))"

definition nat_to_string :: "nat \<Rightarrow> string" where
  \<comment> \<open>Number::toString of a non-negative integral double. Below \<open>2^53\<close> every integer is
      a double, so the shortest decimal is the integer itself.\<close>
  "nat_to_string x =
     (if x < 2 ^ 53 then dec x
      else let v = shortest_decimal x; ds = dec v
           in if v < 10 ^ 21 then ds
              else (case strip_zeros ds of
                      [] \<Rightarrow> ds
                    | [c] \<Rightarrow> c # ''e+'' @ dec (length ds - 1)
                    | c # cs \<Rightarrow> c # CHR ''.'' # cs @ ''e+'' @ dec (length ds - 1)))"

definition num_to_string :: "jsnum \<Rightarrow> string" where
  \<comment> \<open>the string a template literal puts in for a Number\<close>
  "num_to_string x =
     (case x of
        NaN \<Rightarrow> ''NaN''
      | PosInf \<Rightarrow> ''Infinity''
      | NegInf \<Rightarrow> ''-Infinity''
      | Num i \<Rightarrow> if i < 0 then CHR ''-'' # nat_to_string (nat (- i)) else nat_to_string (nat i))"


definition sdec :: "int \<Rightarrow> string" where
  \<comment> \<open>the decimal numeral of an integer, with its sign: what \<open>num_to_string\<close> yields
      for every integer below \<open>2^53\<close> in magnitude\<close>
  "sdec i = (if i < 0 then CHR ''-'' # dec (nat (- i)) else dec (nat i))"

section \<open>The \<open>semver\<close> package: \<open>semver.compare\<close> in strict mode\<close>

text \<open>
  \<open>compareVersions\<close> hands both base strings to \<open>semver.compare\<close> of the npm package
  \<open>semver\<close>, which builds a \<open>SemVer\<close> object from each and throws a \<open>TypeError\<close>
  for a string that is not a version. The constructor and the comparison are modelled
  here as the package defines them: the input is trimmed, an optional \<open>v\<close> is skipped,
  three numeric identifiers without leading zeros follow, then an optional prerelease
  and optional build metadata.
\<close>

datatype js_error = TypeError string | Error string

record semver =
  sv_major :: nat
  sv_minor :: nat
  sv_patch :: nat
  sv_prerelease :: "string list"

definition MAX_SAFE_INTEGER :: nat where
  "MAX_SAFE_INTEGER = 9007199254740991"

definition MAX_LENGTH :: nat where
  "MAX_LENGTH = 256"

definition is_alpha :: "char \<Rightarrow> bool" where
  "is_alpha c =
     ((65 \<le> (of_char c :: nat) \<and> (of_char c :: nat) \<le> 90)
      \<or> (97 \<le> (of_char c :: nat) \<and> (of_char c :: nat) \<le> 122))"

definition is_id_char :: "char \<Rightarrow> bool" where
  \<comment> \<open>\<open>[a-zA-Z0-9-]\<close>\<close>
  "is_id_char c = (is_digit c \<or> is_alpha c \<or> c = CHR ''-'')"

definition take_numeric_id :: "string \<Rightarrow> (string \<times> string) option" where
  \<comment> \<open>\<open>0|[1-9]\d*\<close> at the start of the string, and what is left\<close>
  "take_numeric_id s =
     (case s of
        [] \<Rightarrow> None
      | c # r \<Rightarrow>
          if c = CHR ''0'' then Some ([c], r)
          else if is_digit c then Some (c # takeWhile is_digit r, dropWhile is_digit r)
          else None)"

definition expect_dot :: "string \<Rightarrow> string option" where
  "expect_dot s = (case s of [] \<Rightarrow> None | c # r \<Rightarrow> if c = CHR ''.'' then Some r else None)"

definition valid_prerelease_id :: "string \<Rightarrow> bool" where
  \<comment> \<open>\<open>0|[1-9]\d*|\d*[a-zA-Z-][a-zA-Z0-9-]*\<close>\<close>
  "valid_prerelease_id i =
     (case i of
        [] \<Rightarrow> False
      | c # r \<Rightarrow>
          list_all is_id_char i \<and>
          (if list_all is_digit i then (r = [] \<or> c \<noteq> CHR ''0'') else True))"

definition valid_build :: "string \<Rightarrow> bool" where
  \<comment> \<open>\<open>[a-zA-Z0-9-]+(\.[a-zA-Z0-9-]+)*\<close>\<close>
  "valid_build b = list_all (\<lambda>i. i \<noteq> [] \<and> list_all is_id_char i) (split_on CHR ''.'' b)"

definition match_tail :: "string \<Rightarrow> string list option" where
  \<comment> \<open>what may follow the patch up to the end of the string; the prerelease identifiers\<close>
  "match_tail rest =
     (case rest of
        [] \<Rightarrow> Some []
      | c # r \<Rightarrow>
          if c = CHR ''-'' then
            (let pre = takeWhile (\<lambda>x. x \<noteq> CHR ''+'') r;
                 after = dropWhile (\<lambda>x. x \<noteq> CHR ''+'') r;
                 ids = split_on CHR ''.'' pre
             in if list_all valid_prerelease_id ids
                   \<and> (case after of [] \<Rightarrow> True | _ # b \<Rightarrow> valid_build b)
                then Some ids else None)
          else if c = CHR ''+'' then (if valid_build r then Some [] else None)
          else None)"

definition match_full :: "string \<Rightarrow> (string \<times> string \<times> string \<times> string list) option" where
  \<comment> \<open>the regular expression \<open>FULL\<close>: the three numeric captures and the prerelease\<close>
  "match_full s =
     (let s1 = (case s of [] \<Rightarrow> s | c # r \<Rightarrow> if c = CHR ''v'' then r else s)
      in case take_numeric_id s1 of
           None \<Rightarrow> None
         | Some (a, r1) \<Rightarrow>
             (case expect_dot r1 of
                None \<Rightarrow> None
              | Some r2 \<Rightarrow>
                  (case take_numeric_id r2 of
                     None \<Rightarrow> None
                   | Some (b, r3) \<Rightarrow>
                       (case expect_dot r3 of
                          None \<Rightarrow> None
                        | Some r4 \<Rightarrow>
                            (case take_numeric_id r4 of
                               None \<Rightarrow> None
                             | Some (c, r5) \<Rightarrow>
                                 (case match_tail r5 of
                                    None \<Rightarrow> None
                                  | Some pre \<Rightarrow> Some (a, b, c, pre)))))))"

definition new_SemVer :: "string \<Rightarrow> js_error + semver" where
  \<comment> \<open>the constructor \<open>new SemVer(version)\<close>\<close>
  "new_SemVer version =
     (if MAX_LENGTH < length version
      then Inl (TypeError ''version is longer than 256 characters'')
      else case match_full (trim version) of
             None \<Rightarrow> Inl (TypeError (''Invalid Version: '' @ version))
           | Some (a, b, c, pre) \<Rightarrow>
               if js_lt (Num (int MAX_SAFE_INTEGER)) (dbl (int (digits_val a)))
               then Inl (TypeError ''Invalid major version'')
               else if js_lt (Num (int MAX_SAFE_INTEGER)) (dbl (int (digits_val b)))
               then Inl (TypeError ''Invalid minor version'')
               else if js_lt (Num (int MAX_SAFE_INTEGER)) (dbl (int (digits_val c)))
               then Inl (TypeError ''Invalid patch version'')
               else Inr \<lparr>sv_major = digits_val a, sv_minor = digits_val b,
                         sv_patch = digits_val c, sv_prerelease = pre\<rparr>)"

fun str_lt :: "string \<Rightarrow> string \<Rightarrow> bool" where
  \<comment> \<open>\<open>a < b\<close> on strings: by code units\<close>
  "str_lt _ [] = False"
| "str_lt [] (_ # _) = True"
| "str_lt (a # as) (b # bs) =
     (if a = b then str_lt as bs else (of_char a :: nat) < (of_char b :: nat))"

definition numeric_id :: "string \<Rightarrow> bool" where
  \<comment> \<open>\<open>/^[0-9]+$/\<close>\<close>
  "numeric_id a = (a \<noteq> [] \<and> list_all is_digit a)"

definition compareIdentifiers :: "string \<Rightarrow> string \<Rightarrow> int" where
  \<comment> \<open>on prerelease identifiers: two numeric ones compare as Numbers, a numeric one is
      below any other, the others compare as strings\<close>
  "compareIdentifiers a b =
     (if numeric_id a \<and> numeric_id b
      then (let x = dbl (int (digits_val a)); y = dbl (int (digits_val b))
            in if x = y then 0 else if js_lt x y then - 1 else 1)
      else if a = b then 0
      else if numeric_id a then - 1
      else if numeric_id b then 1
      else if str_lt a b then - 1 else 1)"

definition compare_num :: "nat \<Rightarrow> nat \<Rightarrow> int" where
  \<comment> \<open>\<open>compareIdentifiers\<close> on two of major, minor, patch\<close>
  "compare_num a b = (if a = b then 0 else if a < b then - 1 else 1)"

definition compareMain :: "semver \<Rightarrow> semver \<Rightarrow> int" where
  "compareMain x y =
     (if compare_num (sv_major x) (sv_major y) \<noteq> 0
      then compare_num (sv_major x) (sv_major y)
      else if compare_num (sv_minor x) (sv_minor y) \<noteq> 0
      then compare_num (sv_minor x) (sv_minor y)
      else compare_num (sv_patch x) (sv_patch y))"

fun compare_pre_ids :: "string list \<Rightarrow> string list \<Rightarrow> int" where
  \<comment> \<open>the loop of \<open>comparePre\<close>\<close>
  "compare_pre_ids [] [] = 0"
| "compare_pre_ids (a # as) [] = 1"
| "compare_pre_ids [] (b # bs) = - 1"
| "compare_pre_ids (a # as) (b # bs) =
     (if a = b then compare_pre_ids as bs else compareIdentifiers a b)"

definition comparePre :: "semver \<Rightarrow> semver \<Rightarrow> int" where
  "comparePre x y =
     (if sv_prerelease x \<noteq> [] \<and> sv_prerelease y = [] then - 1
      else if sv_prerelease x = [] \<and> sv_prerelease y \<noteq> [] then 1
      else if sv_prerelease x = [] \<and> sv_prerelease y = [] then 0
      else compare_pre_ids (sv_prerelease x) (sv_prerelease y))"

definition semver_compare :: "string \<Rightarrow> string \<Rightarrow> js_error + int" where
  \<comment> \<open>\<open>semver.compare(a, b)\<close> is \<open>new SemVer(a).compare(new SemVer(b))\<close>; where the two
      formatted versions are the same string, the general path returns 0 as well\<close>
  "semver_compare a b =
     (case new_SemVer a of
        Inl e \<Rightarrow> Inl e
      | Inr x \<Rightarrow>
          (case new_SemVer b of
             Inl e \<Rightarrow> Inl e
           | Inr y \<Rightarrow>
               Inr (if compareMain x y \<noteq> 0 then compareMain x y else comparePre x y)))"

section \<open>The version functions of \<open>src/index.js\<close>\<close>

record version =
  major :: jsnum
  minor :: jsnum
  patch :: jsnum
  build :: jsnum
  base :: string
  full :: string

definition first_part :: "string list \<Rightarrow> string" where
  \<comment> \<open>\<open>parts[0]\<close> of a \<open>split\<close> result, which always has a first element\<close>
  "first_part parts = (case parts of [] \<Rightarrow> [] | p # _ \<Rightarrow> p)"

definition parseFlutterVersion :: "string option \<Rightarrow> version option" where
  "parseFlutterVersion versionStr =
     (case versionStr of
        None \<Rightarrow> None
      | Some s \<Rightarrow>
          if s = [] then None
          else
            (let parts = split_on CHR ''+'' s;
                 baseParts = split_on CHR ''.'' (first_part parts);
                 buildNumber =
                   (case nth_opt parts 1 of
                      None \<Rightarrow> Num 0
                    | Some p \<Rightarrow> if p = [] then Num 0 else parseInt p)
             in Some \<lparr>major = or_zero (parseInt_opt (nth_opt baseParts 0)),
                       minor = or_zero (parseInt_opt (nth_opt baseParts 1)),
                       patch = or_zero (parseInt_opt (nth_opt baseParts 2)),
                       build = buildNumber,
                       base = first_part parts,
                       full = s\<rparr>))"

definition compareVersions :: "string option \<Rightarrow> string option \<Rightarrow> js_error + int" where
  "compareVersions current previous =
     (case (parseFlutterVersion current, parseFlutterVersion previous) of
        (Some currentParsed, Some previousParsed) \<Rightarrow>
          (case semver_compare (base currentParsed) (base previousParsed) of
             Inl e \<Rightarrow> Inl e
           | Inr baseComparison \<Rightarrow>
               if baseComparison \<noteq> 0 then Inr baseComparison
               else if js_lt (build previousParsed) (build currentParsed) then Inr 1
               else if js_lt (build currentParsed) (build previousParsed) then Inr (- 1)
               else Inr 0)
      | _ \<Rightarrow> Inr 0)"

definition generateNextVersion :: "string option \<Rightarrow> string" where
  "generateNextVersion previousVersion =
     (case parseFlutterVersion previousVersion of
        None \<Rightarrow> ''1.0.0+1''
      | Some parsed \<Rightarrow>
          (let newPatch = js_add1 (patch parsed);
               newBuild = js_add1 (build parsed)
           in num_to_string (major parsed) @ ''.'' @ num_to_string (minor parsed) @ ''.''
              @ num_to_string newPatch @ ''+'' @ num_to_string newBuild))"


definition triple :: "int \<Rightarrow> int \<Rightarrow> int \<Rightarrow> string" where
  \<comment> \<open>the base \<open>major.minor.patch\<close> written from three integers\<close>
  "triple a b c = sdec a @ CHR ''.'' # sdec b @ CHR ''.'' # sdec c"

definition fields_base :: "version \<Rightarrow> string" where
  \<comment> \<open>the base as the specification derives it from the numeric fields:
      \<open>major.minor.patch\<close>\<close>
  "fields_base v =
     num_to_string (major v) @ ''.'' @ num_to_string (minor v) @ ''.'' @ num_to_string (patch v)"

section \<open>The collaborators and the effects of the action\<close>

text \<open>
  The action talks to three collaborators: \<open>git\<close> through \<open>exec.exec\<close>, the file
  \<open>pubspec.yaml\<close> through \<open>fs\<close> and \<open>js-yaml\<close>, and the workflow through
  \<open>@actions/core\<close>. The first two are parameters of the model, over a state of the
  world \<open>'w\<close> that the model never looks into. What the action reports through
  \<open>@actions/core\<close>, and every call it makes to a collaborator that can change the world, is
  emitted as an event together with the collaborator's answer, oldest first. \<open>core.info\<close> and \<open>core.debug\<close> only print and are
  not recorded; pictographs that open a message are left out of its text, with the
  spaces after them. The version in the manifest is taken to be a string.
\<close>

type_synonym exec_result = "string + int \<times> string \<times> string"

datatype event =
    Git "string list" exec_result
  | WritePubspec string "string option"
  | Warning string
  | ErrorLog string
  | SetOutput string string
  | SetFailed string

record 'w collab =
  exec_git :: "string list \<Rightarrow> bool \<Rightarrow> 'w \<Rightarrow> exec_result \<times> 'w"
  exists_pubspec :: "'w \<Rightarrow> bool"
  read_version :: "'w \<Rightarrow> string + string option"
  write_version :: "string \<Rightarrow> 'w \<Rightarrow> string option \<times> 'w"
  get_input :: "string \<Rightarrow> string"

text \<open>
  \<open>exec_git C args ignoreReturnCode w\<close> is \<open>exec.exec('git', args, options)\<close>: \<open>Inl m\<close>
  when the promise is rejected with an error of message \<open>m\<close>, else the exit code and
  what the process wrote to stdout and stderr. \<open>read_version C w\<close> is the \<open>version\<close>
  field of the parsed manifest, \<open>Inl m\<close> when reading or parsing throws.
  \<open>write_version C v w\<close> is the body of \<open>updatePubspecVersion\<close>: it answers \<open>Some m\<close>
  when a step of it throws.
\<close>

type_synonym ('w, 'a) act = "'w \<Rightarrow> (js_error + 'a) \<times> event list \<times> 'w"

definition ret :: "'a \<Rightarrow> ('w, 'a) act" where
  "ret a = (\<lambda>w. (Inr a, [], w))"

definition throw :: "js_error \<Rightarrow> ('w, 'a) act" where
  "throw e = (\<lambda>w. (Inl e, [], w))"

definition emit :: "event \<Rightarrow> ('w, unit) act" where
  "emit ev = (\<lambda>w. (Inr (), [ev], w))"

definition andThen :: "('w, 'a) act \<Rightarrow> ('a \<Rightarrow> ('w, 'b) act) \<Rightarrow> ('w, 'b) act" where
  \<comment> \<open>\<open>const x = await m; ...\<close>: an exception of \<open>m\<close> skips the rest\<close>
  "andThen m f =
     (\<lambda>w. case m w of
            (Inl e, evs, w') \<Rightarrow> (Inl e, evs, w')
          | (Inr a, evs, w') \<Rightarrow>
              (case f a w' of (r, evs2, w'') \<Rightarrow> (r, evs @ evs2, w'')))"

definition try_catch :: "('w, 'a) act \<Rightarrow> (js_error \<Rightarrow> ('w, 'a) act) \<Rightarrow> ('w, 'a) act" where
  "try_catch m h =
     (\<lambda>w. case m w of
            (Inl e, evs, w') \<Rightarrow> (case h e w' of (r, evs2, w'') \<Rightarrow> (r, evs @ evs2, w''))
          | (Inr a, evs, w') \<Rightarrow> (Inr a, evs, w'))"

definition message :: "js_error \<Rightarrow> string" where
  "message e = (case e of TypeError m \<Rightarrow> m | Error m \<Rightarrow> m)"

fun join_sp :: "string list \<Rightarrow> string" where
  \<comment> \<open>\<open>args.join(' ')\<close>\<close>
  "join_sp [] = []"
| "join_sp [a] = a"
| "join_sp (a # b # bs) = a @ '' '' @ join_sp (b # bs)"

definition execGit :: "'w collab \<Rightarrow> string list \<Rightarrow> bool \<Rightarrow> ('w, string) act" where
  "execGit C args throwOnError =
     (\<lambda>w. case exec_git C args (\<not> throwOnError) w of
            (Inl m, w') \<Rightarrow> (Inl (Error m), [Git args (Inl m)], w')
          | (Inr (exitCode, output, error), w') \<Rightarrow>
              if exitCode \<noteq> 0 \<and> throwOnError
              then (Inl (Error (''Git command failed: git '' @ join_sp args
                                 @ [CHR 0x0A] @ ''Error: '' @ error)),
                    [Git args (Inr (exitCode, output, error))], w')
              else (Inr (trim output), [Git args (Inr (exitCode, output, error))], w'))"

definition getCurrentVersion :: "'w collab \<Rightarrow> ('w, string option) act" where
  "getCurrentVersion C =
     (\<lambda>w. case read_version C w of
            Inl m \<Rightarrow> (Inr None, [ErrorLog (''Error reading pubspec.yaml: '' @ m)], w)
          | Inr v \<Rightarrow> (Inr (if v = Some [] then None else v), [], w))"

definition updatePubspecVersion :: "'w collab \<Rightarrow> string \<Rightarrow> ('w, bool) act" where
  "updatePubspecVersion C newVersion =
     (\<lambda>w. case write_version C newVersion w of
            (Some m, w') \<Rightarrow>
              (Inr False,
               [WritePubspec newVersion (Some m),
                ErrorLog (''Error updating pubspec.yaml: '' @ m)], w')
          | (None, w') \<Rightarrow> (Inr True, [WritePubspec newVersion None], w'))"

definition getLatestTag :: "'w collab \<Rightarrow> ('w, string option) act" where
  "getLatestTag C =
     try_catch
       (andThen (execGit C [''fetch'', ''--tags''] False) (\<lambda>_.
        andThen (execGit C [''tag'', ''--sort=-version:refname''] False) (\<lambda>tags.
          if tags = [] then ret None
          else
            (let latestTag = trim (first_part (split_on (CHR 0x0A) tags))
             in if latestTag = [] then ret None
                else
                  (let version = (if starts_with latestTag ''v'' then drop 1 latestTag
                                  else latestTag)
                   in ret (Some version))))))
       (\<lambda>error.
          andThen (emit (Warning (''Error getting latest tag: '' @ message error))) (\<lambda>_.
          ret None))"

definition ends_with :: "string \<Rightarrow> string \<Rightarrow> bool" where
  "ends_with s p = (length p \<le> length s \<and> drop (length s - length p) s = p)"

definition is_line_terminator :: "char \<Rightarrow> bool" where
  "is_line_terminator c = (c = CHR 0x0A \<or> c = CHR 0x0D)"

definition github_here :: "string \<Rightarrow> string option" where
  \<comment> \<open>a match of \<open>github\.com[\/:](.+?)(?:\.git)?$\<close> that starts at the first character:
      the capture is the rest of the line without a final \<open>.git\<close>\<close>
  "github_here s =
     (if starts_with s ''github.com''
      then (case drop 10 s of
              [] \<Rightarrow> None
            | d # r \<Rightarrow>
                if (d = CHR ''/'' \<or> d = CHR '':'') \<and> r \<noteq> []
                   \<and> list_all (\<lambda>c. \<not> is_line_terminator c) r
                then Some (if 4 < length r \<and> ends_with r ''.git''
                           then take (length r - 4) r else r)
                else None)
      else None)"

fun match_github :: "string \<Rightarrow> string option" where
  \<comment> \<open>\<open>remoteUrl.match(...)\<close>: the leftmost match, its first capture\<close>
  "match_github [] = None"
| "match_github (c # cs) =
     (case github_here (c # cs) of Some repo \<Rightarrow> Some repo | None \<Rightarrow> match_github cs)"

definition configureGit :: "'w collab \<Rightarrow> string \<Rightarrow> ('w, unit) act" where
  "configureGit C token =
     try_catch
       (andThen (execGit C [''config'', ''--local'', ''user.email'', ''action@github.com''] True) (\<lambda>_.
        andThen (execGit C [''config'', ''--local'', ''user.name'', ''GitHub Action''] True) (\<lambda>_.
          if token \<noteq> [] then
            andThen (execGit C [''config'', ''--get'', ''remote.origin.url''] False) (\<lambda>remoteUrl.
              if remoteUrl \<noteq> [] then
                (case match_github remoteUrl of
                   Some repo \<Rightarrow>
                     (let authenticatedUrl =
                            ''https://x-access-token:'' @ token @ ''@github.com/'' @ repo @ ''.git''
                      in andThen (execGit C [''remote'', ''set-url'', ''origin'', authenticatedUrl] True)
                           (\<lambda>_. ret ()))
                 | None \<Rightarrow> ret ())
              else ret ())
          else ret ())))
       (\<lambda>error.
          andThen (emit (ErrorLog (''Failed to configure git: '' @ message error))) (\<lambda>_.
          throw error))"

definition createAndPushTag :: "'w collab \<Rightarrow> string \<Rightarrow> string \<Rightarrow> ('w, unit) act" where
  "createAndPushTag C version token =
     try_catch
       (andThen (configureGit C token) (\<lambda>_.
          (let tagName = ''v'' @ version
           in andThen (execGit C [''tag'', ''-l'', tagName] False) (\<lambda>existingTag.
                if existingTag \<noteq> [] then ret ()
                else
                  andThen (execGit C [''tag'', ''-a'', tagName, ''-m'', ''Release '' @ tagName] True) (\<lambda>_.
                  andThen (execGit C [''push'', ''origin'', tagName] True) (\<lambda>_.
                  ret ()))))))
       (\<lambda>error.
          andThen (emit (ErrorLog (''Failed to create/push tag: '' @ message error))) (\<lambda>_.
          throw error))"

definition defaultCommitMessage :: "string \<Rightarrow> string \<Rightarrow> string" where
  "defaultCommitMessage newVersion previousVersion =
     ''Auto-increment version to '' @ newVersion @ [CHR 0x0A, CHR 0x0A]
     @ ''Previous version: '' @ previousVersion @ [CHR 0x0A]
     @ ''New version: '' @ newVersion @ [CHR 0x0A]
     @ ''[skip ci]''"

definition commitPushAndTag ::
  "'w collab \<Rightarrow> string \<Rightarrow> string \<Rightarrow> string \<Rightarrow> string \<Rightarrow> string \<Rightarrow> ('w, unit) act" where
  "commitPushAndTag C branch newVersion previousVersion customMessage token =
     try_catch
       (andThen (configureGit C token) (\<lambda>_.
          (let commitMessage = (if customMessage \<noteq> [] then customMessage
                                else defaultCommitMessage newVersion previousVersion)
           in andThen (execGit C [''status'', ''--porcelain''] False) (\<lambda>status.
                if status = [] then ret ()
                else
                  andThen (execGit C [''add'', ''pubspec.yaml''] True) (\<lambda>_.
                  andThen (execGit C [''commit'', ''-m'', commitMessage] True) (\<lambda>_.
                  andThen (execGit C [''push'', ''origin'', ''HEAD:'' @ branch] True) (\<lambda>_.
                  andThen (createAndPushTag C newVersion token) (\<lambda>_.
                  ret ()))))))))
       (\<lambda>error.
          andThen (emit (ErrorLog (''Failed to commit/push: '' @ message error))) (\<lambda>_.
          throw error))"

definition setOutputs :: "string \<Rightarrow> string \<Rightarrow> string \<Rightarrow> string \<Rightarrow> ('w, unit) act" where
  \<comment> \<open>the four \<open>core.setOutput\<close> calls that end every scenario\<close>
  "setOutputs previous current updated new =
     andThen (emit (SetOutput ''previous-version'' previous)) (\<lambda>_.
     andThen (emit (SetOutput ''current-version'' current)) (\<lambda>_.
     andThen (emit (SetOutput ''version-updated'' updated)) (\<lambda>_.
     emit (SetOutput ''new-version'' new))))"

definition scenarios ::
  "'w collab \<Rightarrow> string \<Rightarrow> string \<Rightarrow> string \<Rightarrow> string \<Rightarrow> string option \<Rightarrow> ('w, unit) act" where
  \<comment> \<open>lines 325 to 419 of \<open>run\<close>: the four scenarios, from the version of the manifest
      and the version of the latest tag\<close>
  "scenarios C branch token customMessage currentVersion previousTagVersion =
     (case previousTagVersion of
        None \<Rightarrow>
          andThen (createAndPushTag C currentVersion token) (\<lambda>_.
          setOutputs ''none'' currentVersion ''false'' currentVersion)
      | Some previousTag \<Rightarrow>
          if previousTag = [] then
            andThen (createAndPushTag C currentVersion token) (\<lambda>_.
            setOutputs ''none'' currentVersion ''false'' currentVersion)
          else
            (case compareVersions (Some currentVersion) (Some previousTag) of
               Inl e \<Rightarrow> throw e
             | Inr comparison \<Rightarrow>
                 if comparison = 0 then
                   andThen (emit (Warning (''Version '' @ currentVersion
                                           @ '' equals previous tag '' @ previousTag))) (\<lambda>_.
                     (let newVersion = generateNextVersion (Some currentVersion)
                      in andThen (updatePubspecVersion C newVersion) (\<lambda>ok.
                           if \<not> ok then emit (SetFailed ''Failed to update pubspec.yaml'')
                           else
                             andThen (commitPushAndTag C branch newVersion currentVersion
                                        customMessage token) (\<lambda>_.
                             setOutputs previousTag newVersion ''true'' newVersion))))
                 else if comparison < 0 then
                   andThen (emit (Warning (''Version '' @ currentVersion
                                           @ '' is lower than previous tag '' @ previousTag))) (\<lambda>_.
                     (let newVersion = generateNextVersion (Some previousTag)
                      in andThen (updatePubspecVersion C newVersion) (\<lambda>ok.
                           if \<not> ok then emit (SetFailed ''Failed to update pubspec.yaml'')
                           else
                             andThen (commitPushAndTag C branch newVersion previousTag
                                        customMessage token) (\<lambda>_.
                             setOutputs previousTag newVersion ''true'' newVersion))))
                 else
                   andThen (createAndPushTag C currentVersion token) (\<lambda>_.
                   setOutputs previousTag currentVersion ''false'' currentVersion)))"

definition run :: "'w collab \<Rightarrow> ('w, unit) act" where
  "run C =
     try_catch
       (let branch = (if get_input C ''branch'' \<noteq> [] then get_input C ''branch'' else ''main'');
            token = get_input C ''token'';
            customMessage = get_input C ''commit-message''
        in if token = [] then emit (SetFailed ''GitHub token is required'')
           else
             (\<lambda>w. if \<not> exists_pubspec C w
                   then emit (SetFailed ''pubspec.yaml not found at pubspec.yaml'') w
                   else
                     andThen (getCurrentVersion C) (\<lambda>currentVersion.
                       (case currentVersion of
                          None \<Rightarrow> emit (SetFailed ''Could not read version from pubspec.yaml'')
                        | Some cur \<Rightarrow>
                            andThen (getLatestTag C) (\<lambda>previousTagVersion.
                              scenarios C branch token customMessage cur previousTagVersion))) w))
       (\<lambda>error. emit (SetFailed (''Action failed: '' @ message error)))"

definition resolve_tag :: "string \<Rightarrow> string option" where
  \<comment> \<open>what \<open>getLatestTag\<close> returns for the output of \<open>git tag\<close>: the first line,
      trimmed, without one leading \<open>v\<close>; \<open>None\<close> when that line is empty\<close>
  "resolve_tag out =
     (let latestTag = trim (first_part (split_on (CHR 0x0A) (trim out)))
      in if latestTag = [] then None
         else Some (if starts_with latestTag ''v'' then drop 1 latestTag else latestTag))"

section \<open>Reading a run's events\<close>

definition failed :: "event list \<Rightarrow> bool" where
  \<comment> \<open>\<open>core.setFailed\<close> was called\<close>
  "failed evs = list_ex (\<lambda>e. case e of SetFailed _ \<Rightarrow> True | _ \<Rightarrow> False) evs"

fun output_of :: "event list \<Rightarrow> string \<Rightarrow> string option" where
  \<comment> \<open>the value of an output of the action: the last one set\<close>
  "output_of [] k = None"
| "output_of (e # evs) k =
     (case output_of evs k of
        Some v \<Rightarrow> Some v
      | None \<Rightarrow> (case e of SetOutput n v \<Rightarrow> if n = k then Some v else None | _ \<Rightarrow> None))"

definition manifest_writes :: "event list \<Rightarrow> string list" where
  \<comment> \<open>the versions \<open>updatePubspecVersion\<close> was called with\<close>
  "manifest_writes evs = concat (map (\<lambda>e. case e of WritePubspec v _ \<Rightarrow> [v] | _ \<Rightarrow> []) evs)"

definition git_calls :: "event list \<Rightarrow> string list list" where
  \<comment> \<open>the git commands run, in order\<close>
  "git_calls evs = concat (map (\<lambda>e. case e of Git args _ \<Rightarrow> [args] | _ \<Rightarrow> []) evs)"

definition warnings :: "event list \<Rightarrow> string list" where
  "warnings evs = concat (map (\<lambda>e. case e of Warning m \<Rightarrow> [m] | _ \<Rightarrow> []) evs)"

definition error_logs :: "event list \<Rightarrow> string list" where
  "error_logs evs = concat (map (\<lambda>e. case e of ErrorLog m \<Rightarrow> [m] | _ \<Rightarrow> []) evs)"

definition commit_messages :: "event list \<Rightarrow> string list" where
  \<comment> \<open>the messages of the \<open>git commit -m\<close> commands run\<close>
  "commit_messages evs =
     concat (map (\<lambda>args. case args of
                          [c, f, m] \<Rightarrow> if c = ''commit'' \<and> f = ''-m'' then [m] else []
                        | _ \<Rightarrow> []) (git_calls evs))"

definition answered :: "event list \<Rightarrow> string list \<Rightarrow> (exec_result \<Rightarrow> bool) \<Rightarrow> bool" where
  \<comment> \<open>the command was run and git's answer satisfies \<open>P\<close>\<close>
  "answered evs args P = list_ex (\<lambda>e. case e of Git a res \<Rightarrow> a = args \<and> P res | _ \<Rightarrow> False) evs"

definition exit_ok :: "exec_result \<Rightarrow> bool" where
  "exit_ok res = (case res of Inl _ \<Rightarrow> False | Inr (exitCode, _, _) \<Rightarrow> exitCode = 0)"

definition some_output :: "exec_result \<Rightarrow> bool" where
  \<comment> \<open>the trimmed output is not empty\<close>
  "some_output res = (case res of Inl _ \<Rightarrow> False | Inr (_, output, _) \<Rightarrow> trim output \<noteq> [])"

definition no_output :: "exec_result \<Rightarrow> bool" where
  \<comment> \<open>the command ran and its trimmed output is empty\<close>
  "no_output res = (case res of Inl _ \<Rightarrow> False | Inr (_, output, _) \<Rightarrow> trim output = [])"

definition marker_ensured :: "event list \<Rightarrow> string \<Rightarrow> bool" where
  \<comment> \<open>the tag of a version exists after the run: \<open>git tag -l\<close> found it, or it was
      created and pushed\<close>
  "marker_ensured evs v =
     (answered evs [''tag'', ''-l'', ''v'' @ v] some_output
      \<or> (answered evs [''tag'', ''-a'', ''v'' @ v, ''-m'', ''Release v'' @ v] exit_ok
          \<and> answered evs [''push'', ''origin'', ''v'' @ v] exit_ok))"

definition only_git :: "string list \<Rightarrow> event \<Rightarrow> bool" where
  \<comment> \<open>the event is a git command of one of the given names, or an error line\<close>
  "only_git names e =
     (case e of
        Git args _ \<Rightarrow> (case args of [] \<Rightarrow> False | c # _ \<Rightarrow> c \<in> set names)
      | ErrorLog _ \<Rightarrow> True
      | _ \<Rightarrow> False)"

definition succeeded :: "js_error + 'a \<Rightarrow> bool" where
  \<comment> \<open>the action returned, it did not throw\<close>
  "succeeded r = (case r of Inl _ \<Rightarrow> False | Inr _ \<Rightarrow> True)"

definition post :: "('w, 'a) act \<Rightarrow> ((js_error + 'a) \<Rightarrow> event list \<Rightarrow> bool) \<Rightarrow> bool" where
  \<comment> \<open>every run of the action, from any state of the world, ends with a result and events
      that satisfy \<open>Q\<close>\<close>
  "post m Q = (\<forall>w. case m w of (r, evs, w') \<Rightarrow> Q r evs)"

definition exec_outcome :: "string list \<Rightarrow> bool \<Rightarrow> exec_result \<Rightarrow> js_error + string" where
  \<comment> \<open>what \<open>execGit\<close> makes of git's answer\<close>
  "exec_outcome args throwOnError res =
     (case res of
        Inl m \<Rightarrow> Inl (Error m)
      | Inr (exitCode, output, error) \<Rightarrow>
          if exitCode \<noteq> 0 \<and> throwOnError
          then Inl (Error (''Git command failed: git '' @ join_sp args
                           @ [CHR 0x0A] @ ''Error: '' @ error))
          else Inr (trim output))"

definition commands_within :: "string list \<Rightarrow> event list \<Rightarrow> bool" where
  \<comment> \<open>every git command run is one of the given names\<close>
  "commands_within names evs =
     list_all (\<lambda>args. case args of [] \<Rightarrow> False | c # _ \<Rightarrow> c \<in> set names) (git_calls evs)"

definition tag_only_run :: "js_error + unit \<Rightarrow> event list \<Rightarrow> string \<Rightarrow> bool" where
  \<comment> \<open>a run that leaves the manifest alone, commits nothing and, when it returns, has
      ensured the tag of \<open>v\<close> and reports \<open>v\<close> as not updated\<close>
  "tag_only_run r evs v =
     (manifest_writes evs = [] \<and> commit_messages evs = []
      \<and> [''status'', ''--porcelain''] \<notin> set (git_calls evs)
      \<and> (succeeded r \<longrightarrow>
            \<not> failed evs \<and> marker_ensured evs v
            \<and> output_of evs ''new-version'' = Some v
            \<and> output_of evs ''version-updated'' = Some ''false''))"

definition bump_run :: "js_error + unit \<Rightarrow> event list \<Rightarrow> string \<Rightarrow> bool" where
  \<comment> \<open>a run that writes \<open>v\<close> to the manifest and, when it returns without
      \<open>setFailed\<close>, has asked \<open>git status\<close>, has committed if there was a change, has
      ensured the tag of \<open>v\<close> if it committed, and reports \<open>v\<close> as updated\<close>
  "bump_run r evs v =
     (manifest_writes evs = [v]
      \<and> (succeeded r \<and> \<not> failed evs \<longrightarrow>
            [''status'', ''--porcelain''] \<in> set (git_calls evs)
            \<and> (answered evs [''status'', ''--porcelain''] some_output \<longrightarrow>
                  commit_messages evs \<noteq> [])
            \<and> (commit_messages evs \<noteq> [] \<longrightarrow> marker_ensured evs v)
            \<and> output_of evs ''new-version'' = Some v
            \<and> output_of evs ''version-updated'' = Some ''true''))"

section \<open>Collaborators to run the action on\<close>

definition scripted ::
  "(string list \<Rightarrow> int \<times> string) \<Rightarrow> string option \<Rightarrow> (string \<Rightarrow> string) \<Rightarrow> unit collab" where
  \<comment> \<open>git answers each command with a fixed exit code and output, the manifest holds a
      fixed version and every write succeeds\<close>
  "scripted answers version inputs =
     \<lparr>exec_git = (\<lambda>args ignoreReturnCode w.
                    (Inr (fst (answers args), snd (answers args), []), w)),
      exists_pubspec = (\<lambda>w. True),
      read_version = (\<lambda>w. Inr version),
      write_version = (\<lambda>v w. (None, w)),
      get_input = inputs\<rparr>"

definition token_only :: "string \<Rightarrow> string" where
  \<comment> \<open>the inputs of a workflow that sets only \<open>token\<close>\<close>
  "token_only name = (if name = ''token'' then ''t0k'' else [])"

definition answers_of :: "(string list \<times> int \<times> string) list \<Rightarrow> string list \<Rightarrow> int \<times> string" where
  \<comment> \<open>a script for git: the listed commands answer as listed, every other command
      exits with 0 and prints nothing\<close>
  "answers_of script args = (case map_of script args of None \<Rightarrow> (0, []) | Some a \<Rightarrow> a)"

definition rejecting :: "string \<Rightarrow> unit collab" where
  \<comment> \<open>\<open>exec.exec\<close> rejects every command with the given message, as when git cannot
      be started\<close>
  "rejecting m =
     \<lparr>exec_git = (\<lambda>args ignoreReturnCode w. (Inl m, w)),
      exists_pubspec = (\<lambda>w. True),
      read_version = (\<lambda>w. Inr (Some ''1.0.0+1'')),
      write_version = (\<lambda>v w. (None, w)),
      get_input = token_only\<rparr>"

definition dirty_repo :: "string \<Rightarrow> string list \<Rightarrow> int \<times> string" where
  \<comment> \<open>a repository whose latest tag is the given one and whose working tree has a
      changed manifest\<close>
  "dirty_repo tag =
     answers_of [([''tag'', ''--sort=-version:refname''], (0, tag)),
                 ([''status'', ''--porcelain''], (0, '' M pubspec.yaml''))]"

definition applied_repo :: "string \<Rightarrow> string \<Rightarrow> string list \<Rightarrow> int \<times> string" where
  \<comment> \<open>a repository whose latest tag is the first one, where the second tag exists as
      well and the working tree has no change\<close>
  "applied_repo tag newTag =
     answers_of [([''tag'', ''--sort=-version:refname''], (0, tag)),
                 ([''tag'', ''-l'', newTag], (0, newTag))]"

definition result_of :: "('w, 'a) act \<Rightarrow> 'w \<Rightarrow> js_error + 'a" where
  "result_of m w = fst (m w)"

definition events_of :: "('w, 'a) act \<Rightarrow> 'w \<Rightarrow> event list" where
  "events_of m w = fst (snd (m w))"

section \<open>Splitting and decimal numerals\<close>


lemma split_on_not_Nil: "split_on c s \<noteq> []"
  by (induction s) (auto split: list.splits)

lemma split_on_notin: "c \<notin> set a \<Longrightarrow> split_on c a = [a]"
  by (induction a) auto

lemma split_on_append: "c \<notin> set a \<Longrightarrow> split_on c (a @ c # b) = a # split_on c b"
  by (induction a) auto

lemma of_char_digit_char: "d < 10 \<Longrightarrow> (of_char (digit_char d) :: nat) = 48 + d"
  by (simp add: digit_char_def)

lemma is_digit_digit_char: "d < 10 \<Longrightarrow> is_digit (digit_char d)"
  by (simp add: is_digit_def of_char_digit_char)

lemma digit_val_digit_char: "d < 10 \<Longrightarrow> digit_val (digit_char d) = d"
  by (simp add: digit_val_def of_char_digit_char)

lemma digit_char_zero: "d < 10 \<Longrightarrow> (digit_char d = CHR ''0'') = (d = 0)"
  by (simp add: digit_char_def char_of_eq_iff take_bit_eq_mod)

lemma dec_digits: "list_all is_digit (dec n)"
proof (induction n rule: dec.induct)
  case (1 n)
  show ?case
  proof (cases "n < 10")
    case True
    then show ?thesis by (simp add: dec.simps [of n] is_digit_digit_char)
  next
    case False
    then show ?thesis using 1 by (simp add: dec.simps [of n] is_digit_digit_char)
  qed
qed

lemma dec_not_Nil: "dec n \<noteq> []"
  by (subst dec.simps) simp

lemma digits_val_snoc: "digits_val (xs @ [c]) = 10 * digits_val xs + digit_val c"
  by (simp add: digits_val_def)

lemma digits_val_dec: "digits_val (dec n) = n"
proof (induction n rule: dec.induct)
  case (1 n)
  show ?case
  proof (cases "n < 10")
    case True
    then show ?thesis by (simp add: dec.simps [of n] digits_val_def digit_val_digit_char)
  next
    case False
    then show ?thesis using 1
      by (simp add: dec.simps [of n] digits_val_snoc digit_val_digit_char)
  qed
qed

lemma dec_hd_zero: "(hd (dec n) = CHR ''0'') = (n = 0)"
proof (induction n rule: dec.induct)
  case (1 n)
  show ?case
  proof (cases "n < 10")
    case True
    then show ?thesis by (simp add: dec.simps [of n] digit_char_zero)
  next
    case False
    then have "hd (dec n) = hd (dec (n div 10))"
      by (simp add: dec.simps [of n] dec_not_Nil)
    then show ?thesis using 1 False by simp
  qed
qed

lemma dec_zero: "dec 0 = ''0''"
  by (simp add: dec.simps digit_char_def char_of_eq_iff take_bit_eq_mod)

section \<open>Numbers and their numerals\<close>

lemma digit_not_space: "is_digit c \<Longrightarrow> \<not> is_js_space c"
  by (auto simp: is_digit_def is_js_space_def)

lemma digit_not_plus: "is_digit c \<Longrightarrow> c \<noteq> CHR ''+''"
  by (auto simp: is_digit_def)

lemma digit_not_minus: "is_digit c \<Longrightarrow> c \<noteq> CHR ''-''"
  by (auto simp: is_digit_def)

lemma digit_not_dot: "is_digit c \<Longrightarrow> c \<noteq> CHR ''.''"
  by (auto simp: is_digit_def)

lemma digit_not_v: "is_digit c \<Longrightarrow> c \<noteq> CHR ''v''"
  by (auto simp: is_digit_def)

lemma dec_set_digit: "c \<in> set (dec n) \<Longrightarrow> is_digit c"
  using dec_digits [of n] by (simp add: list_all_iff)

lemma dec_Cons: "\<exists>c r. dec n = c # r \<and> is_digit c"
  using dec_not_Nil [of n] dec_set_digit [of _ n] by (cases "dec n") auto

lemma takeWhile_digit_dec: "takeWhile is_digit (dec n) = dec n"
  using dec_set_digit by (simp add: takeWhile_eq_all_conv)

lemma round_nat_safe: "n < 2 ^ 53 \<Longrightarrow> round_nat n = Some n"
  by (simp add: round_nat_def)

lemma dbl_safe: "\<bar>i\<bar> < 2 ^ 53 \<Longrightarrow> dbl i = Num i"
proof -
  assume a: "\<bar>i\<bar> < 2 ^ 53"
  then have "nat \<bar>i\<bar> < 2 ^ 53"
    by (metis nat_less_iff abs_ge_zero of_nat_numeral of_nat_power)
  then have "round_nat (nat \<bar>i\<bar>) = Some (nat \<bar>i\<bar>)" by (rule round_nat_safe)
  then show ?thesis by (simp add: dbl_def)
qed

lemma parseInt_digits:
  assumes "z \<noteq> []" and "list_all is_digit z"
  shows "parseInt z = dbl (int (digits_val z))"
proof -
  obtain c r where cr: "z = c # r" using assms(1) by (cases z) auto
  have c: "is_digit c" using assms(2) cr by simp
  have tw: "takeWhile is_digit z = z" using assms(2) by (simp add: takeWhile_eq_all_conv list_all_iff)
  have dw: "dropWhile is_js_space z = z" using c cr by (simp add: digit_not_space)
  have "parseInt z = (if takeWhile is_digit z = [] then NaN else dbl (int (digits_val (takeWhile is_digit z))))"
    unfolding parseInt_def dw using c cr by (simp add: digit_not_minus digit_not_plus Let_def del: takeWhile.simps)
  then show ?thesis using tw assms(1) by simp
qed

lemma parseInt_minus_digits:
  assumes "z \<noteq> []" and "list_all is_digit z"
  shows "parseInt (CHR ''-'' # z) = dbl (- int (digits_val z))"
proof -
  have tw: "takeWhile is_digit z = z" using assms(2) by (simp add: takeWhile_eq_all_conv list_all_iff)
  have sp: "\<not> is_js_space CHR ''-''" by (simp add: is_js_space_def)
  have "parseInt (CHR ''-'' # z) = (if takeWhile is_digit z = [] then NaN else dbl (- int (digits_val (takeWhile is_digit z))))"
    unfolding parseInt_def using sp by (simp add: Let_def del: takeWhile.simps)
  then show ?thesis using tw assms(1) by simp
qed

lemma parseInt_dec: "n < 2 ^ 53 \<Longrightarrow> parseInt (dec n) = Num (int n)"
proof -
  assume n: "n < 2 ^ 53"
  have "\<bar>int n\<bar> < 2 ^ 53" using n by (metis abs_of_nat of_nat_less_iff of_nat_numeral of_nat_power)
  then have d: "dbl (int n) = Num (int n)" by (rule dbl_safe)
  show ?thesis using parseInt_digits [OF dec_not_Nil dec_digits, of n] d by (simp add: digits_val_dec)
qed

lemma parseInt_sdec: "\<bar>i\<bar> < 2 ^ 53 \<Longrightarrow> parseInt (sdec i) = Num i"
proof (cases "i < 0")
  case False
  assume a: "\<bar>i\<bar> < 2 ^ 53"
  with False have "nat i < 2 ^ 53"
    by (metis abs_of_nonneg nat_less_iff not_less of_nat_numeral of_nat_power)
  then show ?thesis using False by (simp add: sdec_def parseInt_dec)
next
  case True
  assume a: "\<bar>i\<bar> < 2 ^ 53"
  have d: "dbl i = Num i" using a by (rule dbl_safe)
  show ?thesis
    using True d parseInt_minus_digits [OF dec_not_Nil dec_digits, of "nat (- i)"]
    by (simp add: sdec_def digits_val_dec)
qed

lemma nat_to_string_safe: "n < 2 ^ 53 \<Longrightarrow> nat_to_string n = dec n"
  by (simp add: nat_to_string_def)

lemma num_to_string_safe: "\<bar>i\<bar> < 2 ^ 53 \<Longrightarrow> num_to_string (Num i) = sdec i"
proof -
  assume a: "\<bar>i\<bar> < 2 ^ 53"
  then have "nat \<bar>i\<bar> < 2 ^ 53"
    by (metis nat_less_iff abs_ge_zero of_nat_numeral of_nat_power)
  then have "nat_to_string (nat \<bar>i\<bar>) = dec (nat \<bar>i\<bar>)" by (rule nat_to_string_safe)
  then show ?thesis by (cases "i < 0") (simp_all add: num_to_string_def sdec_def)
qed

lemma sdec_no_plus: "CHR ''+'' \<notin> set (sdec i)"
  using dec_set_digit digit_not_plus by (auto simp: sdec_def)

lemma sdec_no_dot: "CHR ''.'' \<notin> set (sdec i)"
  using dec_set_digit digit_not_dot by (auto simp: sdec_def)

lemma sdec_not_Nil: "sdec i \<noteq> []"
  by (simp add: sdec_def dec_not_Nil)

section \<open>Parsing and incrementing well-formed versions\<close>


lemma first_part_split: "first_part (split_on c s) = takeWhile (\<lambda>x. x \<noteq> c) s"
  by (induction s) (auto simp: first_part_def split: list.splits)

lemma split_on_three:
  assumes "c \<notin> set x" "c \<notin> set y" "c \<notin> set z"
  shows "split_on c (x @ c # y @ c # z) = [x, y, z]"
  using assms by (simp add: split_on_append split_on_notin)

lemma nth_opt_simps:
  "nth_opt [] n = None"
  "nth_opt (x # xs) 0 = Some x"
  "nth_opt (x # xs) (Suc n) = nth_opt xs n"
  "nth_opt (x # xs) 1 = nth_opt xs 0"
  "nth_opt (x # xs) 2 = nth_opt xs 1"
  by (simp_all add: nth_opt_def)

lemma or_zero_Num: "or_zero (Num i) = Num i"
  by (simp add: or_zero_def)

lemma parse_no_build:
  assumes "CHR ''+'' \<notin> set b0" and "b0 \<noteq> []"
  shows "parseFlutterVersion (Some b0) =
         Some \<lparr>major = or_zero (parseInt_opt (nth_opt (split_on CHR ''.'' b0) 0)),
               minor = or_zero (parseInt_opt (nth_opt (split_on CHR ''.'' b0) 1)),
               patch = or_zero (parseInt_opt (nth_opt (split_on CHR ''.'' b0) 2)),
               build = Num 0, base = b0, full = b0\<rparr>"
  using assms by (simp add: parseFlutterVersion_def split_on_notin first_part_def nth_opt_simps Let_def)

lemma parse_with_build:
  assumes "CHR ''+'' \<notin> set b0"
  shows "parseFlutterVersion (Some (b0 @ CHR ''+'' # r)) =
         Some \<lparr>major = or_zero (parseInt_opt (nth_opt (split_on CHR ''.'' b0) 0)),
               minor = or_zero (parseInt_opt (nth_opt (split_on CHR ''.'' b0) 1)),
               patch = or_zero (parseInt_opt (nth_opt (split_on CHR ''.'' b0) 2)),
               build = (if takeWhile (\<lambda>x. x \<noteq> CHR ''+'') r = [] then Num 0
                        else parseInt (takeWhile (\<lambda>x. x \<noteq> CHR ''+'') r)),
               base = b0, full = b0 @ CHR ''+'' # r\<rparr>"
proof -
  have sp: "split_on CHR ''+'' (b0 @ CHR ''+'' # r) = b0 # split_on CHR ''+'' r"
    using assms by (rule split_on_append)
  obtain q qs where q: "split_on CHR ''+'' r = q # qs"
    using split_on_not_Nil [of "CHR ''+''" r] by (cases "split_on CHR ''+'' r") auto
  have "q = takeWhile (\<lambda>x. x \<noteq> CHR ''+'') r"
    using first_part_split [of "CHR ''+''" r] q by (simp add: first_part_def)
  then show ?thesis
    by (simp add: parseFlutterVersion_def sp q first_part_def nth_opt_simps Let_def)
qed

lemma triple_no_plus: "CHR ''+'' \<notin> set (triple a b c)"
  by (simp add: triple_def sdec_no_plus)

lemma triple_not_Nil: "triple a b c \<noteq> []"
  by (simp add: triple_def sdec_not_Nil)

lemma triple_fields:
  assumes "\<bar>a\<bar> < 2 ^ 53" "\<bar>b\<bar> < 2 ^ 53" "\<bar>c\<bar> < 2 ^ 53"
  shows "or_zero (parseInt_opt (nth_opt (split_on CHR ''.'' (triple a b c)) 0)) = Num a"
    and "or_zero (parseInt_opt (nth_opt (split_on CHR ''.'' (triple a b c)) 1)) = Num b"
    and "or_zero (parseInt_opt (nth_opt (split_on CHR ''.'' (triple a b c)) 2)) = Num c"
  using assms
  by (simp_all add: triple_def split_on_three sdec_no_dot nth_opt_simps parseInt_opt_def
      parseInt_sdec or_zero_Num)

lemma parse_triple:
  assumes "\<bar>a\<bar> < 2 ^ 53" "\<bar>b\<bar> < 2 ^ 53" "\<bar>c\<bar> < 2 ^ 53"
  shows "parseFlutterVersion (Some (triple a b c)) =
         Some \<lparr>major = Num a, minor = Num b, patch = Num c, build = Num 0,
               base = triple a b c, full = triple a b c\<rparr>"
  using parse_no_build [OF triple_no_plus triple_not_Nil, of a b c] triple_fields [OF assms]
  by simp

lemma parse_triple_build:
  assumes "\<bar>a\<bar> < 2 ^ 53" "\<bar>b\<bar> < 2 ^ 53" "\<bar>c\<bar> < 2 ^ 53"
  shows "parseFlutterVersion (Some (triple a b c @ CHR ''+'' # r)) =
         Some \<lparr>major = Num a, minor = Num b, patch = Num c,
               build = (if takeWhile (\<lambda>x. x \<noteq> CHR ''+'') r = [] then Num 0
                        else parseInt (takeWhile (\<lambda>x. x \<noteq> CHR ''+'') r)),
               base = triple a b c, full = triple a b c @ CHR ''+'' # r\<rparr>"
  using parse_with_build [OF triple_no_plus, of a b c r] triple_fields [OF assms]
  by simp

lemma js_add1_safe: "\<bar>i\<bar> < 2 ^ 53 - 1 \<Longrightarrow> js_add1 (Num i) = Num (i + 1)"
proof -
  assume "\<bar>i\<bar> < 2 ^ 53 - 1"
  then have "\<bar>i + 1\<bar> < 2 ^ 53" by linarith
  then show ?thesis by (simp add: js_add1_def dbl_safe)
qed

lemma generateNextVersion_safe:
  assumes "parseFlutterVersion x = Some v"
    and "major v = Num a" "minor v = Num b" "patch v = Num c" "build v = Num d"
    and "\<bar>a\<bar> < 2 ^ 53 - 1" "\<bar>b\<bar> < 2 ^ 53 - 1" "\<bar>c\<bar> < 2 ^ 53 - 1" "\<bar>d\<bar> < 2 ^ 53 - 1"
  shows "generateNextVersion x = triple a b (c + 1) @ CHR ''+'' # sdec (d + 1)"
proof -
  have 1: "num_to_string (Num a) = sdec a" using assms(6) by (intro num_to_string_safe) linarith
  have 2: "num_to_string (Num b) = sdec b" using assms(7) by (intro num_to_string_safe) linarith
  have 3: "num_to_string (Num (c + 1)) = sdec (c + 1)"
    using assms(8) by (intro num_to_string_safe) linarith
  have 4: "num_to_string (Num (d + 1)) = sdec (d + 1)"
    using assms(9) by (intro num_to_string_safe) linarith
  show ?thesis
    using assms(1-5) js_add1_safe [OF assms(8)] js_add1_safe [OF assms(9)] 1 2 3 4
    by (simp add: generateNextVersion_def triple_def)
qed

section \<open>\<open>semver\<close> on well-formed bases\<close>


lemma dropWhile_hd: "xs \<noteq> [] \<Longrightarrow> \<not> P (hd xs) \<Longrightarrow> dropWhile P xs = xs"
  by (cases xs) auto

lemma trim_id:
  assumes "s \<noteq> []" "\<not> is_js_space (hd s)" "\<not> is_js_space (last s)"
  shows "trim s = s"
proof -
  have 1: "dropWhile is_js_space s = s" using assms(1,2) by (rule dropWhile_hd)
  have "rev s \<noteq> []" using assms(1) by simp
  moreover have "\<not> is_js_space (hd (rev s))" using assms(1,3) by (simp add: hd_rev)
  ultimately have 2: "dropWhile is_js_space (rev s) = rev s" by (rule dropWhile_hd)
  show ?thesis by (simp add: trim_def 1 2)
qed

lemma take_numeric_id_dec:
  assumes "rest = [] \<or> \<not> is_digit (hd rest)"
  shows "take_numeric_id (dec n @ rest) = Some (dec n, rest)"
proof -
  obtain c r where cr: "dec n = c # r" "is_digit c" using dec_Cons by blast
  have rd: "\<forall>x\<in>set r. is_digit x" using dec_set_digit [of _ n] cr(1) by simp
  have tw: "takeWhile is_digit (r @ rest) = r"
    using rd assms by (cases rest) (auto simp: takeWhile_append1 takeWhile_append2 takeWhile_eq_all_conv)
  have dw: "dropWhile is_digit (r @ rest) = rest"
    using rd assms by (cases rest) (auto simp: dropWhile_append2 dropWhile_append1)
  show ?thesis
  proof (cases "n = 0")
    case True
    then show ?thesis by (simp add: dec_zero take_numeric_id_def)
  next
    case False
    then have "c \<noteq> CHR ''0''" using dec_hd_zero [of n] cr(1) by simp
    then show ?thesis using cr tw dw by (simp add: take_numeric_id_def)
  qed
qed

lemma not_digit_dot: "\<not> is_digit CHR ''.''"
  by (simp add: is_digit_def)

lemma match_full_triple:
  "match_full (dec a @ CHR ''.'' # dec b @ CHR ''.'' # dec c) = Some (dec a, dec b, dec c, [])"
proof -
  obtain x r where xr: "dec a = x # r" "is_digit x" using dec_Cons by blast
  have s1: "(case dec a @ CHR ''.'' # dec b @ CHR ''.'' # dec c of [] \<Rightarrow> dec a @ CHR ''.'' # dec b @ CHR ''.'' # dec c
             | ch # rr \<Rightarrow> if ch = CHR ''v'' then rr else dec a @ CHR ''.'' # dec b @ CHR ''.'' # dec c)
            = dec a @ CHR ''.'' # dec b @ CHR ''.'' # dec c"
    using xr digit_not_v by (simp add: xr(1))
  have t1: "take_numeric_id (dec a @ CHR ''.'' # dec b @ CHR ''.'' # dec c)
            = Some (dec a, CHR ''.'' # dec b @ CHR ''.'' # dec c)"
    by (rule take_numeric_id_dec) (simp add: not_digit_dot)
  have t2: "take_numeric_id (dec b @ CHR ''.'' # dec c) = Some (dec b, CHR ''.'' # dec c)"
    by (rule take_numeric_id_dec) (simp add: not_digit_dot)
  have t3: "take_numeric_id (dec c) = Some (dec c, [])"
    using take_numeric_id_dec [of "[]" c] by simp
  show ?thesis
    unfolding match_full_def s1 Let_def
    by (simp add: t1 t2 t3 expect_dot_def match_tail_def)
qed

lemma length_dec: "n < 10 ^ k \<Longrightarrow> 0 < k \<Longrightarrow> length (dec n) \<le> k"
proof (induction n arbitrary: k rule: dec.induct)
  case (1 n)
  show ?case
  proof (cases "n < 10")
    case True
    then show ?thesis using 1(3) by (simp add: dec.simps [of n])
  next
    case False
    obtain j where j: "k = Suc j" using 1(3) by (cases k) auto
    have "j \<noteq> 0" using False 1(2) j by (cases j) auto
    moreover have "n div 10 < 10 ^ j" using 1(2) j by (simp add: less_mult_imp_div_less)
    ultimately have "length (dec (n div 10)) \<le> j" using 1(1) [of j] False by simp
    then show ?thesis using False j by (simp add: dec.simps [of n])
  qed
qed

lemma length_dec_safe: "n < 2 ^ 53 \<Longrightarrow> length (dec n) \<le> 16"
proof -
  assume "n < 2 ^ 53"
  then have "n < 10 ^ 16" by simp
  then show ?thesis by (rule length_dec) simp
qed

lemma sdec_nat: "sdec (int n) = dec n"
  by (simp add: sdec_def)

lemma triple_nat: "triple (int a) (int b) (int c) = dec a @ CHR ''.'' # dec b @ CHR ''.'' # dec c"
  by (simp add: triple_def sdec_nat)

lemma not_gt_max_safe: "n \<le> MAX_SAFE_INTEGER \<Longrightarrow> \<not> js_lt (Num (int MAX_SAFE_INTEGER)) (dbl (int n))"
proof -
  assume a: "n \<le> MAX_SAFE_INTEGER"
  then have "\<bar>int n\<bar> < 2 ^ 53" by (simp add: MAX_SAFE_INTEGER_def)
  then have "dbl (int n) = Num (int n)" by (rule dbl_safe)
  then show ?thesis using a by (simp add: js_lt_def)
qed

lemma new_SemVer_triple:
  assumes "a \<le> MAX_SAFE_INTEGER" "b \<le> MAX_SAFE_INTEGER" "c \<le> MAX_SAFE_INTEGER"
  shows "new_SemVer (triple (int a) (int b) (int c)) =
         Inr \<lparr>sv_major = a, sv_minor = b, sv_patch = c, sv_prerelease = []\<rparr>"
proof -
  let ?s = "dec a @ CHR ''.'' # dec b @ CHR ''.'' # dec c"
  have la: "length (dec a) \<le> 16" using assms(1) by (intro length_dec_safe) (simp add: MAX_SAFE_INTEGER_def)
  have lb: "length (dec b) \<le> 16" using assms(2) by (intro length_dec_safe) (simp add: MAX_SAFE_INTEGER_def)
  have lc: "length (dec c) \<le> 16" using assms(3) by (intro length_dec_safe) (simp add: MAX_SAFE_INTEGER_def)
  have len: "\<not> MAX_LENGTH < length ?s" using la lb lc by (simp add: MAX_LENGTH_def)
  obtain x r where xr: "dec a = x # r" "is_digit x" using dec_Cons by blast
  have h: "\<not> is_js_space (hd ?s)" using xr by (simp add: digit_not_space)
  have "last ?s = last (dec c)" by (simp add: dec_not_Nil)
  moreover have "is_digit (last (dec c))" using dec_set_digit [of "last (dec c)" c] dec_not_Nil by simp
  ultimately have l: "\<not> is_js_space (last ?s)" by (simp add: digit_not_space)
  have tr: "trim ?s = ?s" by (rule trim_id) (use h l in simp_all)
  show ?thesis
    unfolding new_SemVer_def triple_nat
    using len not_gt_max_safe [OF assms(1)] not_gt_max_safe [OF assms(2)] not_gt_max_safe [OF assms(3)]
    by (simp add: tr match_full_triple digits_val_dec)
qed

lemma semver_compare_patch:
  assumes "a \<le> MAX_SAFE_INTEGER" "b \<le> MAX_SAFE_INTEGER" "c < MAX_SAFE_INTEGER"
  shows "semver_compare (triple (int a) (int b) (int (Suc c))) (triple (int a) (int b) (int c)) = Inr 1"
proof -
  have c1: "Suc c \<le> MAX_SAFE_INTEGER" and c0: "c \<le> MAX_SAFE_INTEGER" using assms(3) by simp_all
  show ?thesis
    unfolding semver_compare_def new_SemVer_triple [OF assms(1,2) c1]
      new_SemVer_triple [OF assms(1,2) c0]
    by (simp add: compareMain_def compare_num_def)
qed

section \<open>Claims about the version functions\<close>


lemma digit_char_numeral:
  "digit_char 0 = CHR ''0''" "digit_char 1 = CHR ''1''" "digit_char (Suc 0) = CHR ''1''"
  "digit_char 2 = CHR ''2''"
  "digit_char 3 = CHR ''3''" "digit_char 4 = CHR ''4''" "digit_char 5 = CHR ''5''"
  "digit_char 6 = CHR ''6''" "digit_char 7 = CHR ''7''" "digit_char 8 = CHR ''8''"
  "digit_char 9 = CHR ''9''"
  by (simp_all add: digit_char_def char_of_eq_iff take_bit_eq_mod)

lemmas parse_eval = parseFlutterVersion_def first_part_def nth_opt_def parseInt_opt_def parseInt_def
  is_js_space_def is_digit_def digits_val_def digit_val_def dbl_def round_nat_def or_zero_def

lemmas next_eval = generateNextVersion_def js_add1_def num_to_string_def nat_to_string_def
  dec.simps digit_char_numeral

lemmas semver_eval = compareVersions_def semver_compare_def new_SemVer_def MAX_LENGTH_def
  MAX_SAFE_INTEGER_def trim_def match_full_def take_numeric_id_def expect_dot_def match_tail_def
  js_lt_def compareMain_def compare_num_def comparePre_def

lemma parse_well_formed:
  assumes "a \<le> MAX_SAFE_INTEGER" "b \<le> MAX_SAFE_INTEGER" "c \<le> MAX_SAFE_INTEGER"
    and "rest = [] \<or> (\<exists>r. rest = CHR ''+'' # r)"
  shows "\<exists>v. parseFlutterVersion (Some (triple (int a) (int b) (int c) @ rest)) = Some v
           \<and> major v = Num (int a) \<and> minor v = Num (int b) \<and> patch v = Num (int c)
           \<and> base v = triple (int a) (int b) (int c)"
proof -
  have s: "\<bar>int a\<bar> < 2 ^ 53" "\<bar>int b\<bar> < 2 ^ 53" "\<bar>int c\<bar> < 2 ^ 53"
    using assms(1-3) by (simp_all add: MAX_SAFE_INTEGER_def)
  show ?thesis
  proof (cases "rest = []")
    case True
    then show ?thesis using parse_triple [OF s] by simp
  next
    case False
    then obtain r where "rest = CHR ''+'' # r" using assms(4) by auto
    then show ?thesis using parse_triple_build [OF s, of r] by simp
  qed
qed

lemma num_to_string_nat: "n < 2 ^ 53 \<Longrightarrow> num_to_string (Num (int n)) = dec n"
proof -
  assume "n < 2 ^ 53"
  then have "\<bar>int n\<bar> < 2 ^ 53" by (metis abs_of_nat of_nat_less_iff of_nat_numeral of_nat_power)
  then have "num_to_string (Num (int n)) = sdec (int n)" by (rule num_to_string_safe)
  then show ?thesis by (simp only: sdec_nat)
qed

text \<open>
  C2, as amended. Where the base of \<open>x\<close> is three decimal numerals without sign, prefix
  or leading zeros, joined by dots, with major and minor at most \<open>2^53 - 1\<close> and the
  patch below it, and \<open>x\<close> is this base alone or the base followed by \<open>+\<close> and anything,
  comparing \<open>generateNextVersion x\<close> with \<open>x\<close> yields 1.
\<close>

theorem increment_is_greater:
  assumes "a \<le> MAX_SAFE_INTEGER" and "b \<le> MAX_SAFE_INTEGER" and "c < MAX_SAFE_INTEGER"
    and "rest = [] \<or> (\<exists>r. rest = CHR ''+'' # r)"
    and "x = dec a @ ''.'' @ dec b @ ''.'' @ dec c @ rest"
  shows "compareVersions (Some (generateNextVersion (Some x))) (Some x) = Inr 1"
proof -
  have c0: "c \<le> MAX_SAFE_INTEGER" and c1: "Suc c \<le> MAX_SAFE_INTEGER" using assms(3) by simp_all
  have x: "x = triple (int a) (int b) (int c) @ rest" using assms(5) by (simp add: triple_nat)
  obtain v where v: "parseFlutterVersion (Some x) = Some v" "major v = Num (int a)"
    "minor v = Num (int b)" "patch v = Num (int c)" "base v = triple (int a) (int b) (int c)"
    using parse_well_formed [OF assms(1,2) c0 assms(4)] x by blast
  have na: "num_to_string (Num (int a)) = dec a"
    by (rule num_to_string_nat) (use assms(1) in \<open>simp add: MAX_SAFE_INTEGER_def\<close>)
  have nb: "num_to_string (Num (int b)) = dec b"
    by (rule num_to_string_nat) (use assms(2) in \<open>simp add: MAX_SAFE_INTEGER_def\<close>)
  have "js_add1 (Num (int c)) = Num (int c + 1)"
    using assms(3) by (intro js_add1_safe) (simp add: MAX_SAFE_INTEGER_def)
  then have jc: "js_add1 (Num (int c)) = Num (int (Suc c))" by simp
  have nc: "num_to_string (Num (int (Suc c))) = dec (Suc c)"
    by (rule num_to_string_nat) (use c1 in \<open>simp add: MAX_SAFE_INTEGER_def\<close>)
  have nx: "generateNextVersion (Some x) =
            triple (int a) (int b) (int (Suc c)) @ CHR ''+'' # num_to_string (js_add1 (build v))"
    unfolding generateNextVersion_def v(1) triple_nat
    by (simp add: v(2-4) na nb jc nc del: of_nat_Suc)
  obtain v' where v': "parseFlutterVersion (Some (generateNextVersion (Some x))) = Some v'"
    "base v' = triple (int a) (int b) (int (Suc c))"
    using parse_well_formed [OF assms(1,2) c1, of "CHR ''+'' # num_to_string (js_add1 (build v))"] nx
    by auto
  show ?thesis
    unfolding compareVersions_def v' v
    using semver_compare_patch [OF assms(1-3)] by (simp add: v'(2) v(5))
qed

theorem increment_is_greater_witness:
  "compareVersions (Some (generateNextVersion (Some ''1.5.3+15''))) (Some ''1.5.3+15'') = Inr 1"
  using increment_is_greater [of 1 5 3 "''+15''" "''1.5.3+15''"]
  by (simp add: MAX_SAFE_INTEGER_def dec.simps digit_char_numeral)

theorem increment_not_greater_counterexample:
  "compareVersions (Some (generateNextVersion (Some ''v1.2.3''))) (Some ''v1.2.3'') = Inr (- 1)
   \<and> compareVersions (Some (generateNextVersion (Some ''1.0''))) (Some ''1.0'')
       = Inl (TypeError ''Invalid Version: 1.0'')"
proof -
  have 1: "generateNextVersion (Some ''v1.2.3'') = ''0.2.4+1''"
    by (simp add: parse_eval next_eval)
  have 2: "compareVersions (Some ''0.2.4+1'') (Some ''v1.2.3'') = Inr (- 1)"
    by (simp add: parse_eval semver_eval)
  have 3: "generateNextVersion (Some ''1.0'') = ''1.0.1+1''"
    by (simp add: parse_eval next_eval)
  have 4: "compareVersions (Some ''1.0.1+1'') (Some ''1.0'') = Inl (TypeError ''Invalid Version: 1.0'')"
    by (simp add: parse_eval semver_eval)
  show ?thesis by (simp only: 1 2 3 4)
qed

text \<open>
  C3. The build counter of \<open>1.0.0+abc\<close> is \<open>NaN\<close>, not 0: the build path lacks the
  \<open>|| 0\<close> that major, minor and patch have.
\<close>

theorem parse_non_numeric_build:
  "parseFlutterVersion (Some ''1.0.0+abc'') =
     Some \<lparr>major = Num 1, minor = Num 0, patch = Num 0, build = NaN,
           base = ''1.0.0'', full = ''1.0.0+abc''\<rparr>"
  by (simp add: parse_eval)


lemma compare_num_cases: "compare_num a b = 1 \<or> compare_num a b = 0 \<or> compare_num a b = - 1"
  by (simp add: compare_num_def)

lemma compareMain_cases: "compareMain x y = 1 \<or> compareMain x y = 0 \<or> compareMain x y = - 1"
  using compare_num_cases [of "sv_major x" "sv_major y"]
    compare_num_cases [of "sv_minor x" "sv_minor y"]
    compare_num_cases [of "sv_patch x" "sv_patch y"]
  unfolding compareMain_def by presburger

lemma compareIdentifiers_cases:
  "compareIdentifiers a b = 1 \<or> compareIdentifiers a b = 0 \<or> compareIdentifiers a b = - 1"
  by (simp add: compareIdentifiers_def Let_def)

lemma compare_pre_ids_cases:
  "compare_pre_ids xs ys = 1 \<or> compare_pre_ids xs ys = 0 \<or> compare_pre_ids xs ys = - 1"
  by (induction xs ys rule: compare_pre_ids.induct) (simp_all add: compareIdentifiers_cases)

lemma comparePre_cases: "comparePre x y = 1 \<or> comparePre x y = 0 \<or> comparePre x y = - 1"
  using compare_pre_ids_cases [of "sv_prerelease x" "sv_prerelease y"]
  by (simp add: comparePre_def)

lemma semver_compare_cases: "semver_compare a b = Inr r \<Longrightarrow> r = 1 \<or> r = 0 \<or> r = - 1"
  using compareMain_cases comparePre_cases
  by (auto simp: semver_compare_def split: sum.splits if_splits)

lemma semver_compare_Inl:
  "(semver_compare a b = Inl e) =
   (new_SemVer a = Inl e \<or> ((\<exists>x. new_SemVer a = Inr x) \<and> new_SemVer b = Inl e))"
  by (auto simp: semver_compare_def split: sum.splits)

text \<open>
  C4, as amended. \<open>compareVersions\<close> returns 0 when either input does not parse; a number
  it returns is 1, 0 or \<open>-1\<close>; and it throws exactly when both inputs parse and
  \<open>semver\<close> rejects the base of one of them, with the error of \<open>semver\<close>.
\<close>

theorem compareVersions_results:
  "(parseFlutterVersion a = None \<or> parseFlutterVersion b = None \<longrightarrow> compareVersions a b = Inr 0)
   \<and> (\<forall>r. compareVersions a b = Inr r \<longrightarrow> r = 1 \<or> r = 0 \<or> r = - 1)
   \<and> (\<forall>e. (compareVersions a b = Inl e) =
            (\<exists>va vb. parseFlutterVersion a = Some va \<and> parseFlutterVersion b = Some vb
               \<and> (new_SemVer (base va) = Inl e
                   \<or> ((\<exists>x. new_SemVer (base va) = Inr x) \<and> new_SemVer (base vb) = Inl e))))"
proof (intro conjI allI impI)
  assume "parseFlutterVersion a = None \<or> parseFlutterVersion b = None"
  then show "compareVersions a b = Inr 0"
    by (auto simp: compareVersions_def split: option.splits)
next
  fix r
  assume "compareVersions a b = Inr r"
  then show "r = 1 \<or> r = 0 \<or> r = - 1"
    using semver_compare_cases
    by (auto simp: compareVersions_def split: option.splits sum.splits if_splits)
next
  fix e
  show "(compareVersions a b = Inl e) =
        (\<exists>va vb. parseFlutterVersion a = Some va \<and> parseFlutterVersion b = Some vb
           \<and> (new_SemVer (base va) = Inl e
               \<or> ((\<exists>x. new_SemVer (base va) = Inr x) \<and> new_SemVer (base vb) = Inl e)))"
  proof (cases "parseFlutterVersion a")
    case None
    then show ?thesis by (simp add: compareVersions_def)
  next
    case (Some va)
    show ?thesis
    proof (cases "parseFlutterVersion b")
      case None
      then show ?thesis using Some by (simp add: compareVersions_def)
    next
      case (Some vb)
      have "(compareVersions a b = Inl e) = (semver_compare (base va) (base vb) = Inl e)"
        using \<open>parseFlutterVersion a = Some va\<close> Some
        by (auto simp: compareVersions_def split: sum.splits)
      then show ?thesis
        using \<open>parseFlutterVersion a = Some va\<close> Some by (simp add: semver_compare_Inl)
    qed
  qed
qed

theorem compareVersions_results_witness:
  "compareVersions None (Some ''1.0.0+1'') = Inr 0
   \<and> compareVersions (Some ''1.0.0+2'') (Some ''1.0.0+1'') = Inr 1
   \<and> compareVersions (Some ''1.0'') (Some ''1.0.0'') = Inl (TypeError ''Invalid Version: 1.0'')"
proof -
  have p1: "parseFlutterVersion (Some ''1.0'') =
        Some \<lparr>major = Num 1, minor = Num 0, patch = Num 0, build = Num 0, base = ''1.0'', full = ''1.0''\<rparr>"
    by (simp add: parse_eval)
  have p2: "parseFlutterVersion (Some ''1.0.0'') =
        Some \<lparr>major = Num 1, minor = Num 0, patch = Num 0, build = Num 0, base = ''1.0.0'', full = ''1.0.0''\<rparr>"
    by (simp add: parse_eval)
  have s: "new_SemVer ''1.0'' = Inl (TypeError ''Invalid Version: 1.0'')"
    by (simp add: semver_eval)
  have a: "compareVersions None (Some ''1.0.0+1'') = Inr 0"
    using compareVersions_results [of None "Some ''1.0.0+1''"]
    by (simp add: parseFlutterVersion_def)
  have b: "compareVersions (Some ''1.0'') (Some ''1.0.0'') = Inl (TypeError ''Invalid Version: 1.0'')"
    using compareVersions_results [of "Some ''1.0''" "Some ''1.0.0''"] p1 p2 s by simp
  have c: "compareVersions (Some ''1.0.0+2'') (Some ''1.0.0+1'') = Inr 1"
    by (simp add: parse_eval semver_eval)
  show ?thesis using a b c by simp
qed

theorem compareVersions_throws_counterexample:
  "compareVersions (Some ''1.0'') (Some ''1.0'') = Inl (TypeError ''Invalid Version: 1.0'')"
  by (simp add: parse_eval semver_eval)


lemma takeWhile_no_plus: "CHR ''+'' \<notin> set s \<Longrightarrow> takeWhile (\<lambda>x. x \<noteq> CHR ''+'') s = s"
  by (simp add: takeWhile_eq_all_conv) blast

text \<open>
  C5, as amended. For an input that does not parse, \<open>generateNextVersion\<close> returns
  \<open>1.0.0+1\<close>. For an input whose four numeric fields are numbers below \<open>2^53 - 1\<close> in
  magnitude, the string it returns parses to the same major and minor, the patch plus
  one and the build counter plus one.
\<close>

theorem generateNextVersion_increments:
  "(parseFlutterVersion x = None \<longrightarrow> generateNextVersion x = ''1.0.0+1'')
   \<and> (\<forall>v a b c d.
         parseFlutterVersion x = Some v \<and> major v = Num a \<and> minor v = Num b
         \<and> patch v = Num c \<and> build v = Num d
         \<and> \<bar>a\<bar> < int MAX_SAFE_INTEGER \<and> \<bar>b\<bar> < int MAX_SAFE_INTEGER
         \<and> \<bar>c\<bar> < int MAX_SAFE_INTEGER \<and> \<bar>d\<bar> < int MAX_SAFE_INTEGER
         \<longrightarrow> (\<exists>v'. parseFlutterVersion (Some (generateNextVersion x)) = Some v'
                  \<and> major v' = Num a \<and> minor v' = Num b
                  \<and> patch v' = Num (c + 1) \<and> build v' = Num (d + 1)))"
proof (intro conjI allI impI)
  assume "parseFlutterVersion x = None"
  then show "generateNextVersion x = ''1.0.0+1''" by (simp add: generateNextVersion_def)
next
  fix v a b c d
  assume h: "parseFlutterVersion x = Some v \<and> major v = Num a \<and> minor v = Num b
         \<and> patch v = Num c \<and> build v = Num d
         \<and> \<bar>a\<bar> < int MAX_SAFE_INTEGER \<and> \<bar>b\<bar> < int MAX_SAFE_INTEGER
         \<and> \<bar>c\<bar> < int MAX_SAFE_INTEGER \<and> \<bar>d\<bar> < int MAX_SAFE_INTEGER"
  then have bd: "\<bar>a\<bar> < 2 ^ 53 - 1" "\<bar>b\<bar> < 2 ^ 53 - 1" "\<bar>c\<bar> < 2 ^ 53 - 1" "\<bar>d\<bar> < 2 ^ 53 - 1"
    by (simp_all add: MAX_SAFE_INTEGER_def)
  have nx: "generateNextVersion x = triple a b (c + 1) @ CHR ''+'' # sdec (d + 1)"
    using h bd by (intro generateNextVersion_safe [of x v]) simp_all
  have s: "\<bar>a\<bar> < 2 ^ 53" "\<bar>b\<bar> < 2 ^ 53" "\<bar>c + 1\<bar> < 2 ^ 53" "\<bar>d + 1\<bar> < 2 ^ 53"
    using bd by linarith+
  have tw: "takeWhile (\<lambda>x. x \<noteq> CHR ''+'') (sdec (d + 1)) = sdec (d + 1)"
    by (rule takeWhile_no_plus) (rule sdec_no_plus)
  show "\<exists>v'. parseFlutterVersion (Some (generateNextVersion x)) = Some v'
                  \<and> major v' = Num a \<and> minor v' = Num b
                  \<and> patch v' = Num (c + 1) \<and> build v' = Num (d + 1)"
    unfolding nx parse_triple_build [OF s(1-3)] tw
    using parseInt_sdec [OF s(4)] by (simp add: sdec_not_Nil)
qed

theorem generateNextVersion_increments_witness:
  "generateNextVersion None = ''1.0.0+1''
   \<and> (\<exists>v'. parseFlutterVersion (Some (generateNextVersion (Some ''1.5.3+15''))) = Some v'
         \<and> major v' = Num 1 \<and> minor v' = Num 5 \<and> patch v' = Num 4 \<and> build v' = Num 16)"
proof -
  have p: "parseFlutterVersion (Some ''1.5.3+15'') =
        Some \<lparr>major = Num 1, minor = Num 5, patch = Num 3, build = Num 15,
              base = ''1.5.3'', full = ''1.5.3+15''\<rparr>"
    by (simp add: parse_eval)
  have a: "generateNextVersion None = ''1.0.0+1''"
    using generateNextVersion_increments [of None] by (simp add: parseFlutterVersion_def)
  have b: "\<exists>v'. parseFlutterVersion (Some (generateNextVersion (Some ''1.5.3+15''))) = Some v'
         \<and> major v' = Num 1 \<and> minor v' = Num 5 \<and> patch v' = Num (3 + 1) \<and> build v' = Num (15 + 1)"
    using generateNextVersion_increments [of "Some ''1.5.3+15''"] p
    by (simp add: MAX_SAFE_INTEGER_def)
  show ?thesis using a b by simp
qed

theorem generateNextVersion_large_build_counterexample:
  "map_option build (parseFlutterVersion (Some ''1.0.0+9007199254740992''))
     = Some (Num 9007199254740992)
   \<and> generateNextVersion (Some ''1.0.0+9007199254740992'') = ''1.0.1+9007199254740992''
   \<and> map_option build (parseFlutterVersion (Some ''1.0.1+9007199254740992''))
     = Some (Num 9007199254740992)"
proof -
  have 1: "parseFlutterVersion (Some ''1.0.0+9007199254740992'') =
        Some \<lparr>major = Num 1, minor = Num 0, patch = Num 0, build = Num 9007199254740992,
              base = ''1.0.0'', full = ''1.0.0+9007199254740992''\<rparr>"
    by (simp add: parse_eval bit_length.simps)
  have 2: "parseFlutterVersion (Some ''1.0.1+9007199254740992'') =
        Some \<lparr>major = Num 1, minor = Num 0, patch = Num 1, build = Num 9007199254740992,
              base = ''1.0.1'', full = ''1.0.1+9007199254740992''\<rparr>"
    by (simp add: parse_eval bit_length.simps)
  have 3: "js_add1 (Num 9007199254740992) = Num 9007199254740992"
    by (simp add: js_add1_def dbl_def round_nat_def bit_length.simps)
  have 4: "shortest_decimal 9007199254740992 = 9007199254740992"
    by (simp add: shortest_decimal_def round_nat_def bit_length.simps Let_def upt_rec dec.simps)
  have 5: "num_to_string (Num 9007199254740992) = ''9007199254740992''"
    by (simp add: num_to_string_def nat_to_string_def 4 dec.simps digit_char_numeral)
  have 6: "generateNextVersion (Some ''1.0.0+9007199254740992'') = ''1.0.1+9007199254740992''"
    unfolding generateNextVersion_def 1
    by (simp add: 3 5) (simp add: next_eval dbl_def round_nat_def)
  show ?thesis by (simp add: 1 2 6)
qed

text \<open>
  C6, as amended. The base of a parsed version is the input up to its first \<open>+\<close> and
  the raw field is the input. For three unsigned decimal numerals below \<open>2^53\<close> without
  leading zeros, joined by dots, the base is the string formed from the numeric fields;
  the raw field is that base, or, with \<open>+\<close> and a fourth such numeral after it, the base
  followed by \<open>+\<close> and the build counter.
\<close>

theorem parse_base_and_full:
  "(\<forall>s v. parseFlutterVersion (Some s) = Some v
       \<longrightarrow> base v = takeWhile (\<lambda>x. x \<noteq> CHR ''+'') s \<and> full v = s)
   \<and> (a < 2 ^ 53 \<and> b < 2 ^ 53 \<and> c < 2 ^ 53 \<and> d < 2 ^ 53 \<longrightarrow>
        (\<exists>v. parseFlutterVersion (Some (dec a @ ''.'' @ dec b @ ''.'' @ dec c)) = Some v
           \<and> base v = fields_base v \<and> full v = base v)
      \<and> (\<exists>v. parseFlutterVersion (Some (dec a @ ''.'' @ dec b @ ''.'' @ dec c @ ''+'' @ dec d)) = Some v
           \<and> base v = fields_base v
           \<and> full v = base v @ ''+'' @ num_to_string (build v)))"
proof (intro conjI allI impI)
  fix s v
  assume "parseFlutterVersion (Some s) = Some v"
  then show "base v = takeWhile (\<lambda>x. x \<noteq> CHR ''+'') s"
    by (auto simp: parseFlutterVersion_def first_part_split Let_def split: if_splits)
next
  fix s v
  assume "parseFlutterVersion (Some s) = Some v"
  then show "full v = s"
    by (auto simp: parseFlutterVersion_def Let_def split: if_splits)
next
  assume h: "a < 2 ^ 53 \<and> b < 2 ^ 53 \<and> c < 2 ^ 53 \<and> d < 2 ^ 53"
  have s: "\<bar>int a\<bar> < 2 ^ 53" "\<bar>int b\<bar> < 2 ^ 53" "\<bar>int c\<bar> < 2 ^ 53"
    using h by simp_all
  have n: "num_to_string (Num (int a)) = dec a" "num_to_string (Num (int b)) = dec b"
    "num_to_string (Num (int c)) = dec c"
    using h by (simp_all add: num_to_string_nat)
  have t: "dec a @ ''.'' @ dec b @ ''.'' @ dec c = triple (int a) (int b) (int c)"
    by (simp add: triple_nat)
  show "\<exists>v. parseFlutterVersion (Some (dec a @ ''.'' @ dec b @ ''.'' @ dec c)) = Some v
           \<and> base v = fields_base v \<and> full v = base v"
    unfolding t parse_triple [OF s] by (simp add: fields_base_def n triple_nat)
next
  assume h: "a < 2 ^ 53 \<and> b < 2 ^ 53 \<and> c < 2 ^ 53 \<and> d < 2 ^ 53"
  have s: "\<bar>int a\<bar> < 2 ^ 53" "\<bar>int b\<bar> < 2 ^ 53" "\<bar>int c\<bar> < 2 ^ 53"
    using h by simp_all
  have n: "num_to_string (Num (int a)) = dec a" "num_to_string (Num (int b)) = dec b"
    "num_to_string (Num (int c)) = dec c" "num_to_string (Num (int d)) = dec d"
    using h by (simp_all add: num_to_string_nat)
  have t: "dec a @ ''.'' @ dec b @ ''.'' @ dec c @ ''+'' @ dec d
           = triple (int a) (int b) (int c) @ CHR ''+'' # dec d"
    by (simp add: triple_nat)
  have np: "CHR ''+'' \<notin> set (dec d)" using sdec_no_plus [of "int d"] by (simp add: sdec_nat)
  have tw: "takeWhile (\<lambda>x. x \<noteq> CHR ''+'') (dec d) = dec d"
    using np by (rule takeWhile_no_plus)
  have pd: "parseInt (dec d) = Num (int d)" using h by (simp add: parseInt_dec)
  show "\<exists>v. parseFlutterVersion (Some (dec a @ ''.'' @ dec b @ ''.'' @ dec c @ ''+'' @ dec d)) = Some v
           \<and> base v = fields_base v
           \<and> full v = base v @ ''+'' @ num_to_string (build v)"
    unfolding t parse_triple_build [OF s] tw
    by (simp add: fields_base_def n triple_nat pd dec_not_Nil)
qed

theorem parse_base_and_full_witness:
  "(\<exists>v. parseFlutterVersion (Some ''1.5.3'') = Some v \<and> base v = fields_base v \<and> full v = base v)
   \<and> (\<exists>v. parseFlutterVersion (Some ''1.5.3+15'') = Some v \<and> base v = fields_base v
         \<and> full v = base v @ ''+'' @ num_to_string (build v))
   \<and> (\<exists>v. parseFlutterVersion (Some ''1.0+7'') = Some v \<and> base v = ''1.0'' \<and> full v = ''1.0+7'')"
proof -
  have p: "parseFlutterVersion (Some ''1.0+7'') =
        Some \<lparr>major = Num 1, minor = Num 0, patch = Num 0, build = Num 7,
              base = ''1.0'', full = ''1.0+7''\<rparr>"
    by (simp add: parse_eval)
  have g: "base \<lparr>major = Num 1, minor = Num 0, patch = Num 0, build = Num 7,
              base = ''1.0'', full = ''1.0+7''\<rparr> = takeWhile (\<lambda>x. x \<noteq> CHR ''+'') ''1.0+7''
           \<and> full \<lparr>major = Num 1, minor = Num 0, patch = Num 0, build = Num 7,
              base = ''1.0'', full = ''1.0+7''\<rparr> = ''1.0+7''"
    using parse_base_and_full [of 1 5 3 15] p by blast
  have w: "(\<exists>v. parseFlutterVersion (Some (dec 1 @ ''.'' @ dec 5 @ ''.'' @ dec 3)) = Some v
           \<and> base v = fields_base v \<and> full v = base v)
      \<and> (\<exists>v. parseFlutterVersion (Some (dec 1 @ ''.'' @ dec 5 @ ''.'' @ dec 3 @ ''+'' @ dec 15)) = Some v
           \<and> base v = fields_base v
           \<and> full v = base v @ ''+'' @ num_to_string (build v))"
    using parse_base_and_full [of 1 5 3 15] by simp
  have d: "dec 1 = ''1''" "dec (Suc 0) = ''1''" "dec 5 = ''5''" "dec 3 = ''3''" "dec 15 = ''15''"
    by (simp_all add: dec.simps digit_char_numeral)
  show ?thesis using w g p by (simp add: d)
qed

theorem parse_base_not_fields_counterexample:
  "map_option (\<lambda>v. (base v, fields_base v)) (parseFlutterVersion (Some ''1.0''))
     = Some (''1.0'', ''1.0.0'')"
  by (simp add: parse_eval fields_base_def num_to_string_def nat_to_string_def dec.simps
      digit_char_numeral)

section \<open>Reasoning about the effects\<close>


lemma postI: "(\<And>w r evs w'. m w = (r, evs, w') \<Longrightarrow> Q r evs) \<Longrightarrow> post m Q"
  by (auto simp: post_def)

lemma postD: "post m Q \<Longrightarrow> m w = (r, evs, w') \<Longrightarrow> Q r evs"
  by (auto simp: post_def split: prod.splits)

lemma post_weaken:
  assumes "post m Q" and "\<And>r evs. Q r evs \<Longrightarrow> Q' r evs"
  shows "post m Q'"
proof (rule postI)
  fix w r evs w'
  assume "m w = (r, evs, w')"
  then have "Q r evs" using assms(1) by (rule postD [rotated])
  then show "Q' r evs" by (rule assms(2))
qed

lemma post_conj:
  assumes "post m Q" and "post m Q'"
  shows "post m (\<lambda>r evs. Q r evs \<and> Q' r evs)"
proof (rule postI)
  fix w r evs w'
  assume m: "m w = (r, evs, w')"
  show "Q r evs \<and> Q' r evs" using postD [OF assms(1) m] postD [OF assms(2) m] by simp
qed

lemma post_ret: "Q (Inr a) [] \<Longrightarrow> post (ret a) Q"
  by (simp add: post_def ret_def)

lemma post_throw: "Q (Inl e) [] \<Longrightarrow> post (throw e) Q"
  by (simp add: post_def throw_def)

lemma post_emit: "Q (Inr ()) [ev] \<Longrightarrow> post (emit ev) Q"
  by (simp add: post_def emit_def)

lemma post_andThen:
  assumes "post m S"
    and "\<And>e evs. S (Inl e) evs \<Longrightarrow> Q (Inl e) evs"
    and "\<And>a evs. S (Inr a) evs \<Longrightarrow> post (f a) (\<lambda>r' evs'. Q r' (evs @ evs'))"
  shows "post (andThen m f) Q"
proof (rule postI)
  fix w r evs w'
  assume a: "andThen m f w = (r, evs, w')"
  obtain r1 e1 w1 where m: "m w = (r1, e1, w1)" by (cases "m w") auto
  have s: "S r1 e1" using assms(1) m by (rule postD)
  show "Q r evs"
  proof (cases r1)
    case (Inl e)
    then show ?thesis using a m s assms(2) by (auto simp: andThen_def)
  next
    case (Inr x)
    obtain r2 e2 w2 where f: "f x w1 = (r2, e2, w2)" by (cases "f x w1") auto
    have "post (f x) (\<lambda>r' evs'. Q r' (e1 @ evs'))" using s Inr assms(3) by simp
    then have "Q r2 (e1 @ e2)" using f by (rule postD)
    then show ?thesis using a m Inr f by (simp add: andThen_def)
  qed
qed

lemma post_try_catch:
  assumes "post m S"
    and "\<And>a evs. S (Inr a) evs \<Longrightarrow> Q (Inr a) evs"
    and "\<And>e evs. S (Inl e) evs \<Longrightarrow> post (h e) (\<lambda>r' evs'. Q r' (evs @ evs'))"
  shows "post (try_catch m h) Q"
proof (rule postI)
  fix w r evs w'
  assume a: "try_catch m h w = (r, evs, w')"
  obtain r1 e1 w1 where m: "m w = (r1, e1, w1)" by (cases "m w") auto
  have s: "S r1 e1" using assms(1) m by (rule postD)
  show "Q r evs"
  proof (cases r1)
    case (Inr x)
    then show ?thesis using a m s assms(2) by (auto simp: try_catch_def)
  next
    case (Inl e)
    obtain r2 e2 w2 where f: "h e w1 = (r2, e2, w2)" by (cases "h e w1") auto
    have "post (h e) (\<lambda>r' evs'. Q r' (e1 @ evs'))" using s Inl assms(3) by simp
    then have "Q r2 (e1 @ e2)" using f by (rule postD)
    then show ?thesis using a m Inl f by (simp add: try_catch_def)
  qed
qed

lemma post_execGit:
  assumes "\<And>res e. exec_outcome args t res = Inl e \<Longrightarrow> Q (Inl e) [Git args res]"
    and "\<And>res a. exec_outcome args t res = Inr a \<Longrightarrow> Q (Inr a) [Git args res]"
  shows "post (execGit C args t) Q"
proof (rule postI)
  fix w r evs w'
  assume a: "execGit C args t w = (r, evs, w')"
  obtain res w1 where e: "exec_git C args (\<not> t) w = (res, w1)" by (cases "exec_git C args (\<not> t) w") auto
  have "r = exec_outcome args t res \<and> evs = [Git args res]"
    using a e by (auto simp: execGit_def exec_outcome_def split: sum.splits prod.splits if_splits)
  then have r: "r = exec_outcome args t res" and ev: "evs = [Git args res]" by simp_all
  show "Q r evs"
  proof (cases r)
    case (Inl x)
    then have "exec_outcome args t res = Inl x" using r by simp
    then show ?thesis unfolding Inl ev by (rule assms(1))
  next
    case (Inr x)
    then have "exec_outcome args t res = Inr x" using r by simp
    then show ?thesis unfolding Inr ev by (rule assms(2))
  qed
qed

lemma post_execGit_exact:
  "post (execGit C args t) (\<lambda>r evs. \<exists>res. r = exec_outcome args t res \<and> evs = [Git args res])"
  by (rule post_execGit) auto

lemma post_andThen_execGit:
  assumes "\<And>res e. exec_outcome args t res = Inl e \<Longrightarrow> Q (Inl e) [Git args res]"
    and "\<And>res a. exec_outcome args t res = Inr a
           \<Longrightarrow> post (f a) (\<lambda>r' evs'. Q r' (Git args res # evs'))"
  shows "post (andThen (execGit C args t) f) Q"
proof (rule post_andThen [OF post_execGit_exact])
  fix e evs
  assume "\<exists>res. Inl e = exec_outcome args t res \<and> evs = [Git args res]"
  then show "Q (Inl e) evs" using assms(1) by (metis)
next
  fix a evs
  assume "\<exists>res. Inr a = exec_outcome args t res \<and> evs = [Git args res]"
  then obtain res where r: "exec_outcome args t res = Inr a" "evs = [Git args res]" by metis
  show "post (f a) (\<lambda>r' evs'. Q r' (evs @ evs'))"
    using assms(2) [OF r(1)] r(2) by simp
qed

lemma post_emit_exact: "post (emit ev) (\<lambda>r evs. r = Inr () \<and> evs = [ev])"
  by (rule post_emit) simp

lemma post_andThen_emit:
  assumes "post (f ()) (\<lambda>r' evs'. Q r' (ev # evs'))"
  shows "post (andThen (emit ev) f) Q"
proof (rule post_andThen [OF post_emit_exact])
  fix e :: js_error and evs
  assume "(Inl e :: js_error + unit) = Inr () \<and> evs = [ev]"
  then show "Q (Inl e) evs" by simp
next
  fix a :: unit and evs
  assume "Inr a = Inr () \<and> evs = [ev]"
  then show "post (f a) (\<lambda>r' evs'. Q r' (evs @ evs'))" using assms by simp
qed

lemma post_try_rethrow:
  assumes "post m (\<lambda>r evs. case r of
                             Inl e \<Rightarrow> Q (Inl e) (evs @ [ErrorLog (pre @ message e)])
                           | Inr a \<Rightarrow> Q (Inr a) evs)"
  shows "post (try_catch m (\<lambda>error. andThen (emit (ErrorLog (pre @ message error)))
                                      (\<lambda>_. throw error))) Q"
  using assms
proof (rule post_try_catch)
  fix a evs
  assume "case Inr a of Inl e \<Rightarrow> Q (Inl e) (evs @ [ErrorLog (pre @ message e)])
          | Inr a \<Rightarrow> Q (Inr a) evs"
  then show "Q (Inr a) evs" by simp
next
  fix e evs
  assume "case Inl e of Inl e \<Rightarrow> Q (Inl e) (evs @ [ErrorLog (pre @ message e)])
          | Inr a \<Rightarrow> Q (Inr a) evs"
  then have "Q (Inl e) (evs @ [ErrorLog (pre @ message e)])" by simp
  then show "post (andThen (emit (ErrorLog (pre @ message e))) (\<lambda>_. throw e))
              (\<lambda>r' evs'. Q r' (evs @ evs'))"
    by (intro post_andThen_emit post_throw) simp
qed

lemma post_if: "(c \<Longrightarrow> post a Q) \<Longrightarrow> (\<not> c \<Longrightarrow> post b Q) \<Longrightarrow> post (if c then a else b) Q"
  by simp

lemma post_case_option:
  "(x = None \<Longrightarrow> post a Q) \<Longrightarrow> (\<And>y. x = Some y \<Longrightarrow> post (b y) Q)
   \<Longrightarrow> post (case x of None \<Rightarrow> a | Some y \<Rightarrow> b y) Q"
  by (cases x) auto

lemma post_let: "post (f x) Q \<Longrightarrow> post (let y = x in f y) Q"
  by simp

lemmas post_rules = post_andThen_execGit post_andThen_emit post_execGit post_ret post_throw
  post_emit post_if post_case_option

lemma succeeded_simps [simp]: "succeeded (Inl e) = False" "succeeded (Inr a) = True"
  by (simp_all add: succeeded_def)

lemma only_git_simps [simp]:
  "only_git names (Git (c # as) res) = (c \<in> set names)"
  "only_git names (Git [] res) = False"
  "only_git names (ErrorLog m) = True"
  "only_git names (WritePubspec v x) = False"
  "only_git names (Warning m) = False"
  "only_git names (SetOutput k v) = False"
  "only_git names (SetFailed m) = False"
  by (simp_all add: only_git_def)

lemma obs_append [simp]:
  "git_calls (xs @ ys) = git_calls xs @ git_calls ys"
  "error_logs (xs @ ys) = error_logs xs @ error_logs ys"
  "warnings (xs @ ys) = warnings xs @ warnings ys"
  "manifest_writes (xs @ ys) = manifest_writes xs @ manifest_writes ys"
  "commit_messages (xs @ ys) = commit_messages xs @ commit_messages ys"
  "answered (xs @ ys) args P = (answered xs args P \<or> answered ys args P)"
  "failed (xs @ ys) = (failed xs \<or> failed ys)"
  by (simp_all add: git_calls_def error_logs_def warnings_def manifest_writes_def
      commit_messages_def answered_def failed_def)

lemma obs_Nil [simp]:
  "git_calls [] = []" "error_logs [] = []" "warnings [] = []" "manifest_writes [] = []"
  "commit_messages [] = []" "answered [] args P = False" "failed [] = False"
  "output_of [] k = None"
  by (simp_all add: git_calls_def error_logs_def warnings_def manifest_writes_def
      commit_messages_def answered_def failed_def)

lemma obs_Git [simp]:
  "git_calls (Git a res # evs) = a # git_calls evs"
  "error_logs (Git a res # evs) = error_logs evs"
  "warnings (Git a res # evs) = warnings evs"
  "manifest_writes (Git a res # evs) = manifest_writes evs"
  "answered (Git a res # evs) args P = ((a = args \<and> P res) \<or> answered evs args P)"
  "failed (Git a res # evs) = failed evs"
  "output_of (Git a res # evs) k = output_of evs k"
  by (simp_all add: git_calls_def error_logs_def warnings_def manifest_writes_def
      answered_def failed_def split: option.splits)

lemma obs_ErrorLog [simp]:
  "git_calls (ErrorLog m # evs) = git_calls evs"
  "error_logs (ErrorLog m # evs) = m # error_logs evs"
  "warnings (ErrorLog m # evs) = warnings evs"
  "manifest_writes (ErrorLog m # evs) = manifest_writes evs"
  "commit_messages (ErrorLog m # evs) = commit_messages evs"
  "answered (ErrorLog m # evs) args P = answered evs args P"
  "failed (ErrorLog m # evs) = failed evs"
  "output_of (ErrorLog m # evs) k = output_of evs k"
  by (simp_all add: git_calls_def error_logs_def warnings_def manifest_writes_def
      commit_messages_def answered_def failed_def split: option.splits)

lemma obs_Warning [simp]:
  "git_calls (Warning m # evs) = git_calls evs"
  "error_logs (Warning m # evs) = error_logs evs"
  "warnings (Warning m # evs) = m # warnings evs"
  "manifest_writes (Warning m # evs) = manifest_writes evs"
  "commit_messages (Warning m # evs) = commit_messages evs"
  "answered (Warning m # evs) args P = answered evs args P"
  "failed (Warning m # evs) = failed evs"
  "output_of (Warning m # evs) k = output_of evs k"
  by (simp_all add: git_calls_def error_logs_def warnings_def manifest_writes_def
      commit_messages_def answered_def failed_def split: option.splits)

lemma obs_WritePubspec [simp]:
  "git_calls (WritePubspec v x # evs) = git_calls evs"
  "error_logs (WritePubspec v x # evs) = error_logs evs"
  "warnings (WritePubspec v x # evs) = warnings evs"
  "manifest_writes (WritePubspec v x # evs) = v # manifest_writes evs"
  "commit_messages (WritePubspec v x # evs) = commit_messages evs"
  "answered (WritePubspec v x # evs) args P = answered evs args P"
  "failed (WritePubspec v x # evs) = failed evs"
  "output_of (WritePubspec v x # evs) k = output_of evs k"
  by (simp_all add: git_calls_def error_logs_def warnings_def manifest_writes_def
      commit_messages_def answered_def failed_def split: option.splits)

lemma obs_SetFailed [simp]:
  "git_calls (SetFailed m # evs) = git_calls evs"
  "error_logs (SetFailed m # evs) = error_logs evs"
  "warnings (SetFailed m # evs) = warnings evs"
  "manifest_writes (SetFailed m # evs) = manifest_writes evs"
  "commit_messages (SetFailed m # evs) = commit_messages evs"
  "answered (SetFailed m # evs) args P = answered evs args P"
  "failed (SetFailed m # evs) = True"
  "output_of (SetFailed m # evs) k = output_of evs k"
  by (simp_all add: git_calls_def error_logs_def warnings_def manifest_writes_def
      commit_messages_def answered_def failed_def split: option.splits)

lemma obs_SetOutput [simp]:
  "git_calls (SetOutput n v # evs) = git_calls evs"
  "error_logs (SetOutput n v # evs) = error_logs evs"
  "warnings (SetOutput n v # evs) = warnings evs"
  "manifest_writes (SetOutput n v # evs) = manifest_writes evs"
  "commit_messages (SetOutput n v # evs) = commit_messages evs"
  "answered (SetOutput n v # evs) args P = answered evs args P"
  "failed (SetOutput n v # evs) = failed evs"
  by (simp_all add: git_calls_def error_logs_def warnings_def manifest_writes_def
      commit_messages_def answered_def failed_def)

lemma commit_messages_Git:
  "commit_messages (Git a res # evs) =
     (case a of [c, f, m] \<Rightarrow> if c = ''commit'' \<and> f = ''-m'' then [m] else [] | _ \<Rightarrow> [])
     @ commit_messages evs"
  by (simp add: commit_messages_def git_calls_def)

lemma output_of_append:
  "output_of (xs @ ys) k = (case output_of ys k of Some v \<Rightarrow> Some v | None \<Rightarrow> output_of xs k)"
  by (induction xs) (auto split: option.splits)

lemma output_of_SetOutput:
  "output_of (SetOutput n v # evs) k =
     (case output_of evs k of Some x \<Rightarrow> Some x | None \<Rightarrow> if n = k then Some v else None)"
  by (simp split: option.splits)

declare output_of.simps(2) [simp del]

lemma only_git_quiet:
  assumes "list_all (only_git names) evs"
  shows "manifest_writes evs = []" and "warnings evs = []" and "\<not> failed evs"
    and "output_of evs k = None"
  using assms by (induction evs; simp add: only_git_def split: event.splits)+

lemma only_git_calls:
  assumes "list_all (only_git names) evs" and "c \<notin> set names"
  shows "c # as \<notin> set (git_calls evs)"
  using assms by (induction evs) (auto simp: only_git_def split: event.splits list.splits)

lemma only_git_answered:
  assumes "list_all (only_git names) evs" and "c \<notin> set names"
  shows "\<not> answered evs (c # as) P"
  using assms by (induction evs) (auto simp: only_git_def split: event.splits list.splits)

lemma only_git_commit_messages:
  assumes "list_all (only_git names) evs" and "''commit'' \<notin> set names"
  shows "commit_messages evs = []"
  using assms
  by (induction evs) (auto simp: only_git_def commit_messages_Git split: event.splits list.splits)

lemma only_git_mono:
  "list_all (only_git names) evs \<Longrightarrow> set names \<subseteq> set names' \<Longrightarrow> list_all (only_git names') evs"
  by (induction evs) (auto simp: only_git_def split: event.splits list.splits)

lemma configureGit_spec:
  "post (configureGit C token)
     (\<lambda>r evs. list_all (only_git [''config'', ''remote'']) evs
               \<and> (succeeded r \<longrightarrow> error_logs evs = []))"
  unfolding configureGit_def Let_def
  apply (rule post_try_rethrow)
  apply (intro post_rules)
  apply simp_all
  done

lemmas cfg_facts =
  only_git_answered [where names = "[''config'', ''remote'']"]
  only_git_calls [where names = "[''config'', ''remote'']"]
  only_git_commit_messages [where names = "[''config'', ''remote'']"]
  only_git_mono [where names = "[''config'', ''remote'']"]

lemma exec_outcome_output:
  "exec_outcome args False res = Inl e \<Longrightarrow> some_output res = False"
  "exec_outcome args False res = Inl e \<Longrightarrow> no_output res = False"
  "exec_outcome args False res = Inr a \<Longrightarrow> some_output res = (a \<noteq> [])"
  "exec_outcome args False res = Inr a \<Longrightarrow> no_output res = (a = [])"
  "exec_outcome args True res = Inr a \<Longrightarrow> exit_ok res = True"
  by (auto simp: exec_outcome_def some_output_def no_output_def exit_ok_def
      split: sum.splits prod.splits if_splits)

lemma createAndPushTag_spec:
  "post (createAndPushTag C v token)
     (\<lambda>r evs. list_all (only_git [''config'', ''remote'', ''tag'', ''push'']) evs
        \<and> (succeeded r \<longrightarrow> marker_ensured evs v \<and> error_logs evs = [])
        \<and> (answered evs [''tag'', ''-l'', ''v'' @ v] some_output \<longrightarrow>
             succeeded r
             \<and> [''tag'', ''-a'', ''v'' @ v, ''-m'', ''Release v'' @ v] \<notin> set (git_calls evs)
             \<and> [''push'', ''origin'', ''v'' @ v] \<notin> set (git_calls evs)))"
  unfolding createAndPushTag_def Let_def
  apply (rule post_try_rethrow)
  apply (rule post_andThen [OF configureGit_spec])
   apply (simp add: cfg_facts)
  apply (intro post_rules)
  apply (simp_all add: cfg_facts marker_ensured_def exec_outcome_output)
  done


lemma answered_mono:
  "answered ys args P \<Longrightarrow> answered (xs @ ys) args P"
  "answered ys args P \<Longrightarrow> answered (e # ys) args P"
  by (simp_all add: answered_def)

lemma marker_ensured_mono [simp]:
  "marker_ensured ys v \<Longrightarrow> marker_ensured (xs @ ys) v"
  "marker_ensured ys v \<Longrightarrow> marker_ensured (e # ys) v"
  unfolding marker_ensured_def by (auto intro: answered_mono)

lemmas tag_facts =
  only_git_answered [where names = "[''config'', ''remote'', ''tag'', ''push'']"]
  only_git_calls [where names = "[''config'', ''remote'', ''tag'', ''push'']"]
  only_git_commit_messages [where names = "[''config'', ''remote'', ''tag'', ''push'']"]
  only_git_mono [where names = "[''config'', ''remote'', ''tag'', ''push'']"]

lemma commitPushAndTag_spec:
  "post (commitPushAndTag C branch newVersion previousVersion customMessage token)
     (\<lambda>r evs.
        list_all (only_git [''config'', ''remote'', ''status'', ''add'', ''commit'', ''push'', ''tag'']) evs
        \<and> (commit_messages evs = []
            \<or> commit_messages evs =
                 [if customMessage \<noteq> [] then customMessage
                  else defaultCommitMessage newVersion previousVersion])
        \<and> (succeeded r \<longrightarrow>
              error_logs evs = [] \<and> [''status'', ''--porcelain''] \<in> set (git_calls evs)
              \<and> (commit_messages evs \<noteq> [] \<longrightarrow> marker_ensured evs newVersion))
        \<and> (answered evs [''status'', ''--porcelain''] no_output \<longrightarrow>
              succeeded r \<and> list_all (only_git [''config'', ''remote'', ''status'']) evs)
        \<and> (succeeded r \<and> answered evs [''status'', ''--porcelain''] some_output \<longrightarrow>
              commit_messages evs \<noteq> []))"
  unfolding commitPushAndTag_def Let_def
  apply (rule post_try_rethrow)
  apply (rule post_andThen [OF configureGit_spec])
   apply (simp add: cfg_facts)
  apply (intro post_rules post_andThen [OF createAndPushTag_spec])
  apply (simp_all (no_asm_simp) add: cfg_facts tag_facts exec_outcome_output
      commit_messages_Git)
  done

lemma updatePubspecVersion_spec:
  "post (updatePubspecVersion C v)
     (\<lambda>r evs. case r of
                 Inl _ \<Rightarrow> False
               | Inr ok \<Rightarrow>
                   if ok then evs = [WritePubspec v None]
                   else \<exists>m. evs = [WritePubspec v (Some m),
                                    ErrorLog (''Error updating pubspec.yaml: '' @ m)])"
  by (rule postI) (auto simp: updatePubspecVersion_def split: prod.splits option.splits)

lemma getCurrentVersion_spec:
  "post (getCurrentVersion C)
     (\<lambda>r evs. (\<exists>v. r = Inr v \<and> v \<noteq> Some []) \<and> list_all (only_git []) evs)"
  by (rule postI) (auto simp: getCurrentVersion_def split: sum.splits if_splits)


lemma post_try_warn:
  assumes "post m (\<lambda>r evs. case r of
                             Inl e \<Rightarrow> Q (Inr None) (evs @ [Warning (pre @ message e)])
                           | Inr a \<Rightarrow> Q (Inr a) evs)"
  shows "post (try_catch m (\<lambda>error. andThen (emit (Warning (pre @ message error)))
                                      (\<lambda>_. ret None))) Q"
  using assms
proof (rule post_try_catch)
  fix a evs
  assume "case Inr a of Inl e \<Rightarrow> Q (Inr None) (evs @ [Warning (pre @ message e)])
          | Inr a \<Rightarrow> Q (Inr a) evs"
  then show "Q (Inr a) evs" by simp
next
  fix e evs
  assume "case Inl e of Inl e \<Rightarrow> Q (Inr None) (evs @ [Warning (pre @ message e)])
          | Inr a \<Rightarrow> Q (Inr a) evs"
  then have "Q (Inr None) (evs @ [Warning (pre @ message e)])" by simp
  then show "post (andThen (emit (Warning (pre @ message e))) (\<lambda>_. ret None))
              (\<lambda>r' evs'. Q r' (evs @ evs'))"
    by (intro post_andThen_emit post_ret) simp
qed

lemma post_try_fail:
  assumes "post m (\<lambda>r evs. case r of
                             Inl e \<Rightarrow> Q (Inr ()) (evs @ [SetFailed (pre @ message e)])
                           | Inr a \<Rightarrow> Q (Inr a) evs)"
  shows "post (try_catch m (\<lambda>error. emit (SetFailed (pre @ message error)))) Q"
  using assms
proof (rule post_try_catch)
  fix a evs
  assume "case Inr a of Inl e \<Rightarrow> Q (Inr ()) (evs @ [SetFailed (pre @ message e)])
          | Inr a \<Rightarrow> Q (Inr a) evs"
  then show "Q (Inr a) evs" by simp
next
  fix e evs
  assume "case Inl e of Inl e \<Rightarrow> Q (Inr ()) (evs @ [SetFailed (pre @ message e)])
          | Inr a \<Rightarrow> Q (Inr a) evs"
  then have "Q (Inr ()) (evs @ [SetFailed (pre @ message e)])" by simp
  then show "post (emit (SetFailed (pre @ message e))) (\<lambda>r' evs'. Q r' (evs @ evs'))"
    by (intro post_emit) simp
qed

lemma post_state_if:
  "post a Q \<Longrightarrow> post b Q \<Longrightarrow> post (\<lambda>w. if c w then a w else b w) Q"
  by (auto simp: post_def)

lemma exec_outcome_rejected:
  "exec_outcome args False res = Inl e \<Longrightarrow> res = Inl (message e)"
  by (auto simp: exec_outcome_def message_def split: sum.splits prod.splits if_splits)

lemma exec_outcome_answer:
  "exec_outcome args False res = Inr a \<Longrightarrow> \<exists>code out err. res = Inr (code, out, err) \<and> a = trim out"
  by (auto simp: exec_outcome_def split: sum.splits prod.splits if_splits)

lemma trim_Nil [simp]: "trim [] = []"
  by (simp add: trim_def)

lemma getLatestTag_spec:
  "post (getLatestTag C)
     (\<lambda>r evs.
        succeeded r
        \<and> list_all (\<lambda>e. case e of Git _ _ \<Rightarrow> True | Warning _ \<Rightarrow> True | _ \<Rightarrow> False) evs
        \<and> (\<forall>m. answered evs [''fetch'', ''--tags''] (\<lambda>res. res = Inl m)
                \<or> answered evs [''tag'', ''--sort=-version:refname''] (\<lambda>res. res = Inl m)
              \<longrightarrow> r = Inr None \<and> warnings evs = [''Error getting latest tag: '' @ m])
        \<and> (\<forall>code out err.
              answered evs [''tag'', ''--sort=-version:refname''] (\<lambda>res. res = Inr (code, out, err))
              \<longrightarrow> r = Inr (resolve_tag out) \<and> warnings evs = []))"
  unfolding getLatestTag_def Let_def
  apply (rule post_try_warn)
  apply (intro post_rules)
  apply (auto simp: resolve_tag_def first_part_def dest!: exec_outcome_rejected exec_outcome_answer)
  done


lemma setOutputs_spec:
  "post (setOutputs p c u n)
     (\<lambda>r evs. succeeded r
        \<and> evs = [SetOutput ''previous-version'' p, SetOutput ''current-version'' c,
                  SetOutput ''version-updated'' u, SetOutput ''new-version'' n])"
  unfolding setOutputs_def
  apply (intro post_rules)
  apply simp
  done

lemma output_of_outputs:
  "output_of (xs @ [SetOutput ''previous-version'' p, SetOutput ''current-version'' c,
                    SetOutput ''version-updated'' u, SetOutput ''new-version'' n])
             ''previous-version'' = Some p"
  "output_of (xs @ [SetOutput ''previous-version'' p, SetOutput ''current-version'' c,
                    SetOutput ''version-updated'' u, SetOutput ''new-version'' n])
             ''current-version'' = Some c"
  "output_of (xs @ [SetOutput ''previous-version'' p, SetOutput ''current-version'' c,
                    SetOutput ''version-updated'' u, SetOutput ''new-version'' n])
             ''version-updated'' = Some u"
  "output_of (xs @ [SetOutput ''previous-version'' p, SetOutput ''current-version'' c,
                    SetOutput ''version-updated'' u, SetOutput ''new-version'' n])
             ''new-version'' = Some n"
  by (simp_all add: output_of_append output_of_SetOutput)

lemma marker_ensured_left [simp]: "marker_ensured xs v \<Longrightarrow> marker_ensured (xs @ ys) v"
  unfolding marker_ensured_def by auto

lemmas tag_quiet = only_git_quiet [where names = "[''config'', ''remote'', ''tag'', ''push'']"]

lemma tag_only_spec:
  "post (andThen (createAndPushTag C cur token) (\<lambda>_. setOutputs p cur ''false'' cur))
     (\<lambda>r evs.
        manifest_writes evs = [] \<and> commit_messages evs = [] \<and> \<not> failed evs
        \<and> warnings evs = []
        \<and> [''status'', ''--porcelain''] \<notin> set (git_calls evs)
        \<and> (succeeded r \<longrightarrow>
              marker_ensured evs cur \<and> error_logs evs = []
              \<and> output_of evs ''previous-version'' = Some p
              \<and> output_of evs ''current-version'' = Some cur
              \<and> output_of evs ''version-updated'' = Some ''false''
              \<and> output_of evs ''new-version'' = Some cur)
        \<and> (\<not> succeeded r \<longrightarrow> (\<forall>k. output_of evs k = None)))"
  apply (rule post_andThen [OF createAndPushTag_spec])
   apply (simp add: tag_facts tag_quiet)
  apply (rule post_weaken [OF setOutputs_spec])
  apply (simp (no_asm_simp) add: tag_facts tag_quiet output_of_outputs)
  done


lemmas commit_names_facts =
  only_git_quiet [where names = "[''config'', ''remote'', ''status'', ''add'', ''commit'', ''push'', ''tag'']"]

lemma list_all_filter_mono: "list_all P xs \<Longrightarrow> list_all P (filter Q xs)"
  by (induction xs) auto

lemmas clean_facts =
  only_git_commit_messages [where names = "[''config'', ''remote'', ''status'']"]

lemma bump_spec:
  "post (andThen (emit (Warning wm)) (\<lambda>_.
           andThen (updatePubspecVersion C newVersion) (\<lambda>ok.
             if \<not> ok then emit (SetFailed ''Failed to update pubspec.yaml'')
             else andThen (commitPushAndTag C branch newVersion baseline customMessage token) (\<lambda>_.
                  setOutputs previousTag newVersion ''true'' newVersion))))
     (\<lambda>r evs.
        manifest_writes evs = [newVersion] \<and> warnings evs = [wm]
        \<and> (commit_messages evs = []
            \<or> commit_messages evs =
                 [if customMessage \<noteq> [] then customMessage
                  else defaultCommitMessage newVersion baseline])
        \<and> (succeeded r \<and> \<not> failed evs \<longrightarrow>
              error_logs evs = [] \<and> [''status'', ''--porcelain''] \<in> set (git_calls evs)
              \<and> (commit_messages evs \<noteq> [] \<longrightarrow> marker_ensured evs newVersion)
              \<and> (answered evs [''status'', ''--porcelain''] some_output \<longrightarrow>
                    commit_messages evs \<noteq> [])
              \<and> output_of evs ''previous-version'' = Some previousTag
              \<and> output_of evs ''current-version'' = Some newVersion
              \<and> output_of evs ''version-updated'' = Some ''true''
              \<and> output_of evs ''new-version'' = Some newVersion)
        \<and> (answered evs [''status'', ''--porcelain''] no_output \<longrightarrow>
              succeeded r \<and> \<not> failed evs \<and> commit_messages evs = []
              \<and> list_all (only_git [''config'', ''remote'', ''status'']) (filter (\<lambda>e. case e of Git _ _ \<Rightarrow> True | _ \<Rightarrow> False) evs))
        \<and> (\<not> succeeded r \<or> failed evs \<longrightarrow> (\<forall>k. output_of evs k = None)))"
  apply (rule post_andThen_emit)
  apply (rule post_andThen [OF updatePubspecVersion_spec])
   apply simp
  apply (case_tac a)
   apply (simp split del: if_split)
   apply (rule post_andThen [OF commitPushAndTag_spec])
    apply (simp add: commit_names_facts split del: if_split)
   apply (rule post_weaken [OF setOutputs_spec])
   apply (simp (no_asm_simp) add: commit_names_facts output_of_outputs clean_facts
      list_all_filter_mono split del: if_split)
  apply (clarsimp split del: if_split)
  apply (rule post_emit)
  apply simp
  done


lemma scenarios_no_tag:
  "prev = None \<or> prev = Some [] \<Longrightarrow>
   scenarios C branch token customMessage cur prev =
     andThen (createAndPushTag C cur token) (\<lambda>_. setOutputs ''none'' cur ''false'' cur)"
  by (auto simp: scenarios_def)

lemma scenarios_same:
  "p \<noteq> [] \<Longrightarrow> compareVersions (Some cur) (Some p) = Inr 0 \<Longrightarrow>
   scenarios C branch token customMessage cur (Some p) =
     andThen (emit (Warning (''Version '' @ cur @ '' equals previous tag '' @ p))) (\<lambda>_.
       andThen (updatePubspecVersion C (generateNextVersion (Some cur))) (\<lambda>ok.
         if \<not> ok then emit (SetFailed ''Failed to update pubspec.yaml'')
         else andThen (commitPushAndTag C branch (generateNextVersion (Some cur)) cur
                         customMessage token) (\<lambda>_.
              setOutputs p (generateNextVersion (Some cur)) ''true''
                (generateNextVersion (Some cur)))))"
  by (simp add: scenarios_def Let_def)

lemma scenarios_lower:
  "p \<noteq> [] \<Longrightarrow> compareVersions (Some cur) (Some p) = Inr c \<Longrightarrow> c < 0 \<Longrightarrow>
   scenarios C branch token customMessage cur (Some p) =
     andThen (emit (Warning (''Version '' @ cur @ '' is lower than previous tag '' @ p))) (\<lambda>_.
       andThen (updatePubspecVersion C (generateNextVersion (Some p))) (\<lambda>ok.
         if \<not> ok then emit (SetFailed ''Failed to update pubspec.yaml'')
         else andThen (commitPushAndTag C branch (generateNextVersion (Some p)) p
                         customMessage token) (\<lambda>_.
              setOutputs p (generateNextVersion (Some p)) ''true''
                (generateNextVersion (Some p)))))"
  by (simp add: scenarios_def Let_def)

lemma scenarios_higher:
  "p \<noteq> [] \<Longrightarrow> compareVersions (Some cur) (Some p) = Inr c \<Longrightarrow> 0 < c \<Longrightarrow>
   scenarios C branch token customMessage cur (Some p) =
     andThen (createAndPushTag C cur token) (\<lambda>_. setOutputs p cur ''false'' cur)"
  by (simp add: scenarios_def)

lemma scenarios_throws:
  "p \<noteq> [] \<Longrightarrow> compareVersions (Some cur) (Some p) = Inl e \<Longrightarrow>
   scenarios C branch token customMessage cur (Some p) = throw e"
  by (simp add: scenarios_def)

lemma scenarios_outputs:
  "post (scenarios C branch token customMessage cur prev)
     (\<lambda>r evs. succeeded r \<and> \<not> failed evs \<longrightarrow>
        (\<exists>ver. output_of evs ''current-version'' = Some ver
              \<and> output_of evs ''new-version'' = Some ver))"
proof (cases "prev = None \<or> prev = Some []")
  case True
  show ?thesis
    unfolding scenarios_no_tag [OF True]
    by (rule post_weaken [OF tag_only_spec]) simp
next
  case False
  then obtain p where p: "prev = Some p" "p \<noteq> []" by auto
  show ?thesis
  proof (cases "compareVersions (Some cur) (Some p)")
    case (Inl e)
    show ?thesis
      unfolding p(1) scenarios_throws [OF p(2) Inl]
      by (rule post_throw) simp
  next
    case (Inr c)
    consider "c = 0" | "c < 0" | "0 < c" by linarith
    then show ?thesis
    proof cases
      case 1
      show ?thesis
        unfolding p(1) scenarios_same [OF p(2) Inr [unfolded 1]]
        by (rule post_weaken [OF bump_spec]) simp
    next
      case 2
      show ?thesis
        unfolding p(1) scenarios_lower [OF p(2) Inr 2]
        by (rule post_weaken [OF bump_spec]) simp
    next
      case 3
      show ?thesis
        unfolding p(1) scenarios_higher [OF p(2) Inr 3]
        by (rule post_weaken [OF tag_only_spec]) simp
    qed
  qed
qed

lemma latest_tag_quiet:
  assumes "list_all (\<lambda>e. case e of Git _ _ \<Rightarrow> True | Warning _ \<Rightarrow> True | _ \<Rightarrow> False) evs"
  shows "\<not> failed evs" and "output_of evs k = None" and "manifest_writes evs = []"
  using assms by (induction evs; simp split: event.splits)+

lemmas no_git_quiet = only_git_quiet [where names = "[]"]

lemma run_spec:
  "post (run C)
     (\<lambda>r evs. succeeded r
        \<and> (\<not> failed evs \<longrightarrow>
             (\<exists>ver. output_of evs ''current-version'' = Some ver
                   \<and> output_of evs ''new-version'' = Some ver)))"
  unfolding run_def Let_def
  apply (rule post_try_fail)
  apply (rule post_if)
   apply (rule post_emit)
   apply simp
  apply (rule post_state_if)
   apply (rule post_emit)
   apply simp
  apply (rule post_andThen [OF getCurrentVersion_spec])
   apply simp
  apply (rule post_case_option)
   apply (rule post_emit)
   apply simp
  apply (rule post_andThen [OF getLatestTag_spec])
   apply simp
  apply (rule post_weaken [OF scenarios_outputs])
  apply (auto simp: no_git_quiet latest_tag_quiet output_of_append split: sum.splits)
  done

text \<open>
  C10. Whenever \<open>run\<close> ends without \<open>core.setFailed\<close>, the outputs \<open>current-version\<close>
  and \<open>new-version\<close> are both set, to the same value.
\<close>

theorem run_outputs_agree:
  assumes "run C w = (r, evs, w')" and "\<not> failed evs"
  shows "\<exists>ver. output_of evs ''current-version'' = Some ver
             \<and> output_of evs ''new-version'' = Some ver"
  using postD [OF run_spec assms(1)] assms(2) by simp

section \<open>Claims about the run\<close>


lemma commands_within_filter:
  "list_all (only_git names) (filter (\<lambda>e. case e of Git _ _ \<Rightarrow> True | _ \<Rightarrow> False) evs)
   \<Longrightarrow> commands_within names evs"
  by (induction evs)
     (auto simp: commands_within_def git_calls_def only_git_def split: event.splits list.splits)

text \<open>
  C1, as amended. A run of the four scenarios on a declared version \<open>cur\<close> and a latest
  tag version \<open>prev\<close> follows one comparison. With no latest tag, or with the result of
  \<open>compareVersions\<close> above 0, it is a tag-only run for \<open>cur\<close>. With the result 0 it
  is a bump run for \<open>generateNextVersion cur\<close>, with a result below 0 a bump run for
  \<open>generateNextVersion prev\<close>. When \<open>compareVersions\<close> throws, the scenarios throw the same
  error and do nothing.
\<close>

theorem scenarios_plan:
  assumes "scenarios C branch token customMessage cur prev w = (r, evs, w')"
  shows
    "(prev = None \<or> prev = Some [] \<longrightarrow> tag_only_run r evs cur)
     \<and> (\<forall>p c. prev = Some p \<and> p \<noteq> [] \<and> compareVersions (Some cur) (Some p) = Inr c \<longrightarrow>
          (c = 0 \<longrightarrow> bump_run r evs (generateNextVersion (Some cur)))
          \<and> (c < 0 \<longrightarrow> bump_run r evs (generateNextVersion (Some p)))
          \<and> (0 < c \<longrightarrow> tag_only_run r evs cur))
     \<and> (\<forall>p e. prev = Some p \<and> p \<noteq> [] \<and> compareVersions (Some cur) (Some p) = Inl e \<longrightarrow>
          r = Inl e \<and> evs = [])"
proof -
  have boot: "tag_only_run r evs cur" if h: "prev = None \<or> prev = Some []"
  proof -
    have "andThen (createAndPushTag C cur token) (\<lambda>_. setOutputs ''none'' cur ''false'' cur) w
          = (r, evs, w')"
      using assms unfolding scenarios_no_tag [OF h] .
    from postD [OF tag_only_spec this] show ?thesis by (simp add: tag_only_run_def)
  qed
  have same: "bump_run r evs (generateNextVersion (Some cur))"
    if h: "prev = Some p" "p \<noteq> []" "compareVersions (Some cur) (Some p) = Inr 0" for p
  proof -
    have "andThen (emit (Warning (''Version '' @ cur @ '' equals previous tag '' @ p))) (\<lambda>_.
       andThen (updatePubspecVersion C (generateNextVersion (Some cur))) (\<lambda>ok.
         if \<not> ok then emit (SetFailed ''Failed to update pubspec.yaml'')
         else andThen (commitPushAndTag C branch (generateNextVersion (Some cur)) cur
                         customMessage token) (\<lambda>_.
              setOutputs p (generateNextVersion (Some cur)) ''true''
                (generateNextVersion (Some cur))))) w = (r, evs, w')"
      using assms unfolding h(1) scenarios_same [OF h(2,3)] .
    from postD [OF bump_spec this] show ?thesis by (simp add: bump_run_def)
  qed
  have lower: "bump_run r evs (generateNextVersion (Some p))"
    if h: "prev = Some p" "p \<noteq> []" "compareVersions (Some cur) (Some p) = Inr c" "c < 0" for p c
  proof -
    have "andThen (emit (Warning (''Version '' @ cur @ '' is lower than previous tag '' @ p))) (\<lambda>_.
       andThen (updatePubspecVersion C (generateNextVersion (Some p))) (\<lambda>ok.
         if \<not> ok then emit (SetFailed ''Failed to update pubspec.yaml'')
         else andThen (commitPushAndTag C branch (generateNextVersion (Some p)) p
                         customMessage token) (\<lambda>_.
              setOutputs p (generateNextVersion (Some p)) ''true''
                (generateNextVersion (Some p))))) w = (r, evs, w')"
      using assms unfolding h(1) scenarios_lower [OF h(2,3,4)] .
    from postD [OF bump_spec this] show ?thesis by (simp add: bump_run_def)
  qed
  have higher: "tag_only_run r evs cur"
    if h: "prev = Some p" "p \<noteq> []" "compareVersions (Some cur) (Some p) = Inr c" "0 < c" for p c
  proof -
    have "andThen (createAndPushTag C cur token) (\<lambda>_. setOutputs p cur ''false'' cur) w
          = (r, evs, w')"
      using assms unfolding h(1) scenarios_higher [OF h(2,3,4)] .
    from postD [OF tag_only_spec this] show ?thesis by (simp add: tag_only_run_def)
  qed
  have throws: "r = Inl e \<and> evs = []"
    if h: "prev = Some p" "p \<noteq> []" "compareVersions (Some cur) (Some p) = Inl e" for p e
  proof -
    have "throw e w = (r, evs, w')"
      using assms unfolding h(1) scenarios_throws [OF h(2,3)] .
    then show ?thesis by (auto simp: throw_def)
  qed
  show ?thesis using boot same lower higher throws by blast
qed

text \<open>
  C7, as amended. With no custom commit message, the only commit message a run can use
  is the default one, and the version it cites as previous is the declared version
  \<open>cur\<close> when \<open>compareVersions\<close> is 0 and the version of the latest tag when it is
  below 0. A run with no latest tag or with the result above 0 commits nothing. The
  output \<open>previous-version\<close> is \<open>none\<close> with no latest tag and the version of the latest
  tag otherwise.
\<close>

theorem commit_message_baseline:
  assumes "scenarios C branch token [] cur prev w = (r, evs, w')"
  shows
    "(prev = None \<or> prev = Some [] \<longrightarrow>
        commit_messages evs = []
        \<and> (succeeded r \<longrightarrow> output_of evs ''previous-version'' = Some ''none''))
     \<and> (\<forall>p c. prev = Some p \<and> p \<noteq> [] \<and> compareVersions (Some cur) (Some p) = Inr c \<longrightarrow>
          (c = 0 \<longrightarrow>
             commit_messages evs = []
             \<or> commit_messages evs
                = [defaultCommitMessage (generateNextVersion (Some cur)) cur])
          \<and> (c < 0 \<longrightarrow>
             commit_messages evs = []
             \<or> commit_messages evs
                = [defaultCommitMessage (generateNextVersion (Some p)) p])
          \<and> (0 < c \<longrightarrow> commit_messages evs = [])
          \<and> (succeeded r \<and> \<not> failed evs \<longrightarrow>
                output_of evs ''previous-version'' = Some p))"
proof -
  have boot: "commit_messages evs = []
        \<and> (succeeded r \<longrightarrow> output_of evs ''previous-version'' = Some ''none'')"
    if h: "prev = None \<or> prev = Some []"
  proof -
    have "andThen (createAndPushTag C cur token) (\<lambda>_. setOutputs ''none'' cur ''false'' cur) w
          = (r, evs, w')"
      using assms unfolding scenarios_no_tag [OF h] .
    from postD [OF tag_only_spec this] show ?thesis by simp
  qed
  have same: "(commit_messages evs = []
             \<or> commit_messages evs
                = [defaultCommitMessage (generateNextVersion (Some cur)) cur])
        \<and> (succeeded r \<and> \<not> failed evs \<longrightarrow> output_of evs ''previous-version'' = Some p)"
    if h: "prev = Some p" "p \<noteq> []" "compareVersions (Some cur) (Some p) = Inr 0" for p
  proof -
    have "andThen (emit (Warning (''Version '' @ cur @ '' equals previous tag '' @ p))) (\<lambda>_.
       andThen (updatePubspecVersion C (generateNextVersion (Some cur))) (\<lambda>ok.
         if \<not> ok then emit (SetFailed ''Failed to update pubspec.yaml'')
         else andThen (commitPushAndTag C branch (generateNextVersion (Some cur)) cur
                         [] token) (\<lambda>_.
              setOutputs p (generateNextVersion (Some cur)) ''true''
                (generateNextVersion (Some cur))))) w = (r, evs, w')"
      using assms unfolding h(1) scenarios_same [OF h(2,3)] .
    from postD [OF bump_spec this] show ?thesis by simp
  qed
  have lower: "(commit_messages evs = []
             \<or> commit_messages evs
                = [defaultCommitMessage (generateNextVersion (Some p)) p])
        \<and> (succeeded r \<and> \<not> failed evs \<longrightarrow> output_of evs ''previous-version'' = Some p)"
    if h: "prev = Some p" "p \<noteq> []" "compareVersions (Some cur) (Some p) = Inr c" "c < 0" for p c
  proof -
    have "andThen (emit (Warning (''Version '' @ cur @ '' is lower than previous tag '' @ p))) (\<lambda>_.
       andThen (updatePubspecVersion C (generateNextVersion (Some p))) (\<lambda>ok.
         if \<not> ok then emit (SetFailed ''Failed to update pubspec.yaml'')
         else andThen (commitPushAndTag C branch (generateNextVersion (Some p)) p
                         [] token) (\<lambda>_.
              setOutputs p (generateNextVersion (Some p)) ''true''
                (generateNextVersion (Some p))))) w = (r, evs, w')"
      using assms unfolding h(1) scenarios_lower [OF h(2,3,4)] .
    from postD [OF bump_spec this] show ?thesis by simp
  qed
  have higher: "commit_messages evs = []
        \<and> (succeeded r \<and> \<not> failed evs \<longrightarrow> output_of evs ''previous-version'' = Some p)"
    if h: "prev = Some p" "p \<noteq> []" "compareVersions (Some cur) (Some p) = Inr c" "0 < c" for p c
  proof -
    have "andThen (createAndPushTag C cur token) (\<lambda>_. setOutputs p cur ''false'' cur) w
          = (r, evs, w')"
      using assms unfolding h(1) scenarios_higher [OF h(2,3,4)] .
    from postD [OF tag_only_spec this] show ?thesis by simp
  qed
  have mid: "c = 0 \<or> c < 0 \<or> 0 < c" for c :: int by linarith
  show ?thesis
  proof (rule conjI)
    show "prev = None \<or> prev = Some [] \<longrightarrow>
        commit_messages evs = []
        \<and> (succeeded r \<longrightarrow> output_of evs ''previous-version'' = Some ''none'')"
      using boot by blast
  next
    show "\<forall>p c. prev = Some p \<and> p \<noteq> [] \<and> compareVersions (Some cur) (Some p) = Inr c \<longrightarrow>
          (c = 0 \<longrightarrow>
             commit_messages evs = []
             \<or> commit_messages evs
                = [defaultCommitMessage (generateNextVersion (Some cur)) cur])
          \<and> (c < 0 \<longrightarrow>
             commit_messages evs = []
             \<or> commit_messages evs
                = [defaultCommitMessage (generateNextVersion (Some p)) p])
          \<and> (0 < c \<longrightarrow> commit_messages evs = [])
          \<and> (succeeded r \<and> \<not> failed evs \<longrightarrow>
                output_of evs ''previous-version'' = Some p)"
    proof (intro allI impI, elim conjE)
      fix p c
      assume h: "prev = Some p" "p \<noteq> []" "compareVersions (Some cur) (Some p) = Inr c"
      show "(c = 0 \<longrightarrow>
             commit_messages evs = []
             \<or> commit_messages evs
                = [defaultCommitMessage (generateNextVersion (Some cur)) cur])
          \<and> (c < 0 \<longrightarrow>
             commit_messages evs = []
             \<or> commit_messages evs
                = [defaultCommitMessage (generateNextVersion (Some p)) p])
          \<and> (0 < c \<longrightarrow> commit_messages evs = [])
          \<and> (succeeded r \<and> \<not> failed evs \<longrightarrow>
                output_of evs ''previous-version'' = Some p)"
        using same [OF h(1,2)] lower [OF h] higher [OF h] h(3) mid [of c] by blast
    qed
  qed
qed

lemma clean_tree_cases:
  "(scenarios C branch token customMessage cur (Some p) w = (r, evs, w')
      \<and> p \<noteq> [] \<and> compareVersions (Some cur) (Some p) = Inr c \<and> c \<le> 0
      \<and> answered evs [''status'', ''--porcelain''] no_output
    \<longrightarrow> succeeded r \<and> \<not> failed evs \<and> error_logs evs = [] \<and> commit_messages evs = []
        \<and> commands_within [''config'', ''remote'', ''status''] evs
        \<and> output_of evs ''version-updated'' = Some ''true'')
   \<and> (createAndPushTag C v token w2 = (r2, evs2, w2')
      \<and> answered evs2 [''tag'', ''-l'', ''v'' @ v] some_output
    \<longrightarrow> succeeded r2 \<and> error_logs evs2 = []
        \<and> [''tag'', ''-a'', ''v'' @ v, ''-m'', ''Release v'' @ v] \<notin> set (git_calls evs2)
        \<and> [''push'', ''origin'', ''v'' @ v] \<notin> set (git_calls evs2))"
proof (intro conjI impI)
  assume h: "scenarios C branch token customMessage cur (Some p) w = (r, evs, w')
      \<and> p \<noteq> [] \<and> compareVersions (Some cur) (Some p) = Inr c \<and> c \<le> 0
      \<and> answered evs [''status'', ''--porcelain''] no_output"
  have goal: "succeeded r \<and> \<not> failed evs \<and> error_logs evs = [] \<and> commit_messages evs = []
        \<and> commands_within [''config'', ''remote'', ''status''] evs
        \<and> output_of evs ''version-updated'' = Some ''true''"
  proof (cases "c = 0")
    case True
    have "andThen (emit (Warning (''Version '' @ cur @ '' equals previous tag '' @ p))) (\<lambda>_.
       andThen (updatePubspecVersion C (generateNextVersion (Some cur))) (\<lambda>ok.
         if \<not> ok then emit (SetFailed ''Failed to update pubspec.yaml'')
         else andThen (commitPushAndTag C branch (generateNextVersion (Some cur)) cur
                         customMessage token) (\<lambda>_.
              setOutputs p (generateNextVersion (Some cur)) ''true''
                (generateNextVersion (Some cur))))) w = (r, evs, w')"
      using h True scenarios_same [of p cur C branch token customMessage] by auto
    from postD [OF bump_spec this] h show ?thesis
      by (auto intro: commands_within_filter)
  next
    case False
    then have c: "c < 0" using h by simp
    have "andThen (emit (Warning (''Version '' @ cur @ '' is lower than previous tag '' @ p))) (\<lambda>_.
       andThen (updatePubspecVersion C (generateNextVersion (Some p))) (\<lambda>ok.
         if \<not> ok then emit (SetFailed ''Failed to update pubspec.yaml'')
         else andThen (commitPushAndTag C branch (generateNextVersion (Some p)) p
                         customMessage token) (\<lambda>_.
              setOutputs p (generateNextVersion (Some p)) ''true''
                (generateNextVersion (Some p))))) w = (r, evs, w')"
      using h c scenarios_lower [of p cur c C branch token customMessage] by auto
    from postD [OF bump_spec this] h show ?thesis
      by (auto intro: commands_within_filter)
  qed
  from goal show "succeeded r" "\<not> failed evs" "error_logs evs = []" "commit_messages evs = []"
    "commands_within [''config'', ''remote'', ''status''] evs"
    "output_of evs ''version-updated'' = Some ''true''"
    by simp_all
next
  assume h: "createAndPushTag C v token w2 = (r2, evs2, w2')
      \<and> answered evs2 [''tag'', ''-l'', ''v'' @ v] some_output"
  then have run: "createAndPushTag C v token w2 = (r2, evs2, w2')" by simp
  from postD [OF createAndPushTag_spec run] h
  show "succeeded r2" "error_logs evs2 = []"
    "[''tag'', ''-a'', ''v'' @ v, ''-m'', ''Release v'' @ v] \<notin> set (git_calls evs2)"
    "[''push'', ''origin'', ''v'' @ v] \<notin> set (git_calls evs2)"
    by simp_all
qed

lemma commands_within_notin:
  "commands_within names evs \<Longrightarrow> c \<notin> set names \<Longrightarrow> c # args \<notin> set (git_calls evs)"
  by (auto simp: commands_within_def list_all_iff)

text \<open>
  C8, as amended. When \<open>git status\<close> reports no change in a run whose comparison is 0 or
  below, the run returns without error, stages and commits nothing, pushes nothing to
  the branch, and reports \<open>version-updated = true\<close>. When \<open>createAndPushTag\<close> finds the
  tag with \<open>git tag -l\<close>, it returns without error and neither creates nor pushes the
  tag.
\<close>

theorem clean_tree_rerun:
  "(scenarios C branch token customMessage cur (Some p) w = (r, evs, w')
      \<and> p \<noteq> [] \<and> compareVersions (Some cur) (Some p) = Inr c \<and> c \<le> 0
      \<and> answered evs [''status'', ''--porcelain''] no_output
    \<longrightarrow> succeeded r \<and> \<not> failed evs \<and> error_logs evs = [] \<and> commit_messages evs = []
        \<and> [''add'', ''pubspec.yaml''] \<notin> set (git_calls evs)
        \<and> [''push'', ''origin'', ''HEAD:'' @ branch] \<notin> set (git_calls evs)
        \<and> output_of evs ''version-updated'' = Some ''true'')
   \<and> (createAndPushTag C v token w2 = (r2, evs2, w2')
      \<and> answered evs2 [''tag'', ''-l'', ''v'' @ v] some_output
    \<longrightarrow> succeeded r2 \<and> error_logs evs2 = []
        \<and> [''tag'', ''-a'', ''v'' @ v, ''-m'', ''Release v'' @ v] \<notin> set (git_calls evs2)
        \<and> [''push'', ''origin'', ''v'' @ v] \<notin> set (git_calls evs2))"
proof (rule conjI)
  show "scenarios C branch token customMessage cur (Some p) w = (r, evs, w')
      \<and> p \<noteq> [] \<and> compareVersions (Some cur) (Some p) = Inr c \<and> c \<le> 0
      \<and> answered evs [''status'', ''--porcelain''] no_output
    \<longrightarrow> succeeded r \<and> \<not> failed evs \<and> error_logs evs = [] \<and> commit_messages evs = []
        \<and> [''add'', ''pubspec.yaml''] \<notin> set (git_calls evs)
        \<and> [''push'', ''origin'', ''HEAD:'' @ branch] \<notin> set (git_calls evs)
        \<and> output_of evs ''version-updated'' = Some ''true''"
  proof
    assume h: "scenarios C branch token customMessage cur (Some p) w = (r, evs, w')
      \<and> p \<noteq> [] \<and> compareVersions (Some cur) (Some p) = Inr c \<and> c \<le> 0
      \<and> answered evs [''status'', ''--porcelain''] no_output"
    note f = clean_tree_cases [THEN conjunct1, rule_format, OF h]
    from f have cw: "commands_within [''config'', ''remote'', ''status''] evs" by blast
    have "[''add'', ''pubspec.yaml''] \<notin> set (git_calls evs)"
      by (rule commands_within_notin [OF cw]) simp
    moreover have "[''push'', ''origin'', ''HEAD:'' @ branch] \<notin> set (git_calls evs)"
      by (rule commands_within_notin [OF cw]) simp
    ultimately show "succeeded r \<and> \<not> failed evs \<and> error_logs evs = [] \<and> commit_messages evs = []
        \<and> [''add'', ''pubspec.yaml''] \<notin> set (git_calls evs)
        \<and> [''push'', ''origin'', ''HEAD:'' @ branch] \<notin> set (git_calls evs)
        \<and> output_of evs ''version-updated'' = Some ''true''"
      using f by blast
  qed
next
  show "createAndPushTag C v token w2 = (r2, evs2, w2')
      \<and> answered evs2 [''tag'', ''-l'', ''v'' @ v] some_output
    \<longrightarrow> succeeded r2 \<and> error_logs evs2 = []
        \<and> [''tag'', ''-a'', ''v'' @ v, ''-m'', ''Release v'' @ v] \<notin> set (git_calls evs2)
        \<and> [''push'', ''origin'', ''v'' @ v] \<notin> set (git_calls evs2)"
    using clean_tree_cases [THEN conjunct2] .
qed




section \<open>Runs on the scripted collaborators\<close>


lemmas effect_eval = run_def scenarios_def getLatestTag_def getCurrentVersion_def
  createAndPushTag_def commitPushAndTag_def configureGit_def updatePubspecVersion_def
  setOutputs_def execGit_def andThen_def try_catch_def ret_def throw_def emit_def
  scripted_def token_only_def answers_of_def trim_def is_js_space_def first_part_def
  starts_with_def message_def Let_def dirty_repo_def applied_repo_def rejecting_def

lemma versions_eval:
  "compareVersions (Some ''1.0.0+1'') (Some ''1.0.0+1'') = Inr 0"
  "compareVersions (Some ''1.0.0+1'') (Some ''1.5.3+15'') = Inr (- 1)"
  "compareVersions (Some ''1.5.4+16'') (Some ''1.5.3+15'') = Inr 1"
  "compareVersions (Some ''1.0.0'') (Some ''1.0.0+0'') = Inr 0"
  "compareVersions (Some ''1.0'') (Some ''1.0'') = Inl (TypeError ''Invalid Version: 1.0'')"
  "generateNextVersion (Some ''1.0.0+1'') = ''1.0.1+2''"
  "generateNextVersion (Some ''1.5.3+15'') = ''1.5.4+16''"
  "generateNextVersion (Some ''1.0.0'') = ''1.0.1+1''"
  by (simp_all add: parse_eval semver_eval next_eval)

lemma same_dirty_run:
  "scenarios (scripted (dirty_repo ''v1.0.0+1'') (Some ''1.0.0+1'') token_only)
     ''main'' ''t0k'' [] ''1.0.0+1'' (Some ''1.0.0+1'') ()
   = (Inr (),
      [Warning ''Version 1.0.0+1 equals previous tag 1.0.0+1'',
       WritePubspec ''1.0.1+2'' None,
       Git [''config'', ''--local'', ''user.email'', ''action@github.com''] (Inr (0, [], [])),
       Git [''config'', ''--local'', ''user.name'', ''GitHub Action''] (Inr (0, [], [])),
       Git [''config'', ''--get'', ''remote.origin.url''] (Inr (0, [], [])),
       Git [''status'', ''--porcelain''] (Inr (0, '' M pubspec.yaml'', [])),
       Git [''add'', ''pubspec.yaml''] (Inr (0, [], [])),
       Git [''commit'', ''-m'', defaultCommitMessage ''1.0.1+2'' ''1.0.0+1''] (Inr (0, [], [])),
       Git [''push'', ''origin'', ''HEAD:main''] (Inr (0, [], [])),
       Git [''config'', ''--local'', ''user.email'', ''action@github.com''] (Inr (0, [], [])),
       Git [''config'', ''--local'', ''user.name'', ''GitHub Action''] (Inr (0, [], [])),
       Git [''config'', ''--get'', ''remote.origin.url''] (Inr (0, [], [])),
       Git [''tag'', ''-l'', ''v1.0.1+2''] (Inr (0, [], [])),
       Git [''tag'', ''-a'', ''v1.0.1+2'', ''-m'', ''Release v1.0.1+2''] (Inr (0, [], [])),
       Git [''push'', ''origin'', ''v1.0.1+2''] (Inr (0, [], [])),
       SetOutput ''previous-version'' ''1.0.0+1'',
       SetOutput ''current-version'' ''1.0.1+2'',
       SetOutput ''version-updated'' ''true'',
       SetOutput ''new-version'' ''1.0.1+2''],
      ())"
  by (simp add: effect_eval versions_eval)

lemma lower_dirty_run:
  "scenarios (scripted (dirty_repo ''v1.5.3+15'') (Some ''1.0.0+1'') token_only)
     ''main'' ''t0k'' [] ''1.0.0+1'' (Some ''1.5.3+15'') ()
   = (Inr (),
      [Warning ''Version 1.0.0+1 is lower than previous tag 1.5.3+15'',
       WritePubspec ''1.5.4+16'' None,
       Git [''config'', ''--local'', ''user.email'', ''action@github.com''] (Inr (0, [], [])),
       Git [''config'', ''--local'', ''user.name'', ''GitHub Action''] (Inr (0, [], [])),
       Git [''config'', ''--get'', ''remote.origin.url''] (Inr (0, [], [])),
       Git [''status'', ''--porcelain''] (Inr (0, '' M pubspec.yaml'', [])),
       Git [''add'', ''pubspec.yaml''] (Inr (0, [], [])),
       Git [''commit'', ''-m'', defaultCommitMessage ''1.5.4+16'' ''1.5.3+15''] (Inr (0, [], [])),
       Git [''push'', ''origin'', ''HEAD:main''] (Inr (0, [], [])),
       Git [''config'', ''--local'', ''user.email'', ''action@github.com''] (Inr (0, [], [])),
       Git [''config'', ''--local'', ''user.name'', ''GitHub Action''] (Inr (0, [], [])),
       Git [''config'', ''--get'', ''remote.origin.url''] (Inr (0, [], [])),
       Git [''tag'', ''-l'', ''v1.5.4+16''] (Inr (0, [], [])),
       Git [''tag'', ''-a'', ''v1.5.4+16'', ''-m'', ''Release v1.5.4+16''] (Inr (0, [], [])),
       Git [''push'', ''origin'', ''v1.5.4+16''] (Inr (0, [], [])),
       SetOutput ''previous-version'' ''1.5.3+15'',
       SetOutput ''current-version'' ''1.5.4+16'',
       SetOutput ''version-updated'' ''true'',
       SetOutput ''new-version'' ''1.5.4+16''],
      ())"
  by (simp add: effect_eval versions_eval)

lemma higher_run:
  "scenarios (scripted (dirty_repo ''v1.5.3+15'') (Some ''1.5.4+16'') token_only)
     ''main'' ''t0k'' [] ''1.5.4+16'' (Some ''1.5.3+15'') ()
   = (Inr (),
      [Git [''config'', ''--local'', ''user.email'', ''action@github.com''] (Inr (0, [], [])),
       Git [''config'', ''--local'', ''user.name'', ''GitHub Action''] (Inr (0, [], [])),
       Git [''config'', ''--get'', ''remote.origin.url''] (Inr (0, [], [])),
       Git [''tag'', ''-l'', ''v1.5.4+16''] (Inr (0, [], [])),
       Git [''tag'', ''-a'', ''v1.5.4+16'', ''-m'', ''Release v1.5.4+16''] (Inr (0, [], [])),
       Git [''push'', ''origin'', ''v1.5.4+16''] (Inr (0, [], [])),
       SetOutput ''previous-version'' ''1.5.3+15'',
       SetOutput ''current-version'' ''1.5.4+16'',
       SetOutput ''version-updated'' ''false'',
       SetOutput ''new-version'' ''1.5.4+16''],
      ())"
  by (simp add: effect_eval versions_eval)

lemma no_tag_run:
  "scenarios (scripted (answers_of []) (Some ''1.0.0+1'') token_only)
     ''main'' ''t0k'' [] ''1.0.0+1'' None ()
   = (Inr (),
      [Git [''config'', ''--local'', ''user.email'', ''action@github.com''] (Inr (0, [], [])),
       Git [''config'', ''--local'', ''user.name'', ''GitHub Action''] (Inr (0, [], [])),
       Git [''config'', ''--get'', ''remote.origin.url''] (Inr (0, [], [])),
       Git [''tag'', ''-l'', ''v1.0.0+1''] (Inr (0, [], [])),
       Git [''tag'', ''-a'', ''v1.0.0+1'', ''-m'', ''Release v1.0.0+1''] (Inr (0, [], [])),
       Git [''push'', ''origin'', ''v1.0.0+1''] (Inr (0, [], [])),
       SetOutput ''previous-version'' ''none'',
       SetOutput ''current-version'' ''1.0.0+1'',
       SetOutput ''version-updated'' ''false'',
       SetOutput ''new-version'' ''1.0.0+1''],
      ())"
  by (simp add: effect_eval versions_eval)

lemma same_clean_run:
  "scenarios (scripted (applied_repo ''v1.0.0+1'' ''v1.0.1+2'') (Some ''1.0.0+1'') token_only)
     ''main'' ''t0k'' [] ''1.0.0+1'' (Some ''1.0.0+1'') ()
   = (Inr (),
      [Warning ''Version 1.0.0+1 equals previous tag 1.0.0+1'',
       WritePubspec ''1.0.1+2'' None,
       Git [''config'', ''--local'', ''user.email'', ''action@github.com''] (Inr (0, [], [])),
       Git [''config'', ''--local'', ''user.name'', ''GitHub Action''] (Inr (0, [], [])),
       Git [''config'', ''--get'', ''remote.origin.url''] (Inr (0, [], [])),
       Git [''status'', ''--porcelain''] (Inr (0, [], [])),
       SetOutput ''previous-version'' ''1.0.0+1'',
       SetOutput ''current-version'' ''1.0.1+2'',
       SetOutput ''version-updated'' ''true'',
       SetOutput ''new-version'' ''1.0.1+2''],
      ())"
  by (simp add: effect_eval versions_eval)

lemma existing_tag_run:
  "createAndPushTag (scripted (applied_repo ''v1.0.0+1'' ''v1.0.1+2'') (Some ''1.0.0+1'') token_only)
     ''1.0.1+2'' ''t0k'' ()
   = (Inr (),
      [Git [''config'', ''--local'', ''user.email'', ''action@github.com''] (Inr (0, [], [])),
       Git [''config'', ''--local'', ''user.name'', ''GitHub Action''] (Inr (0, [], [])),
       Git [''config'', ''--get'', ''remote.origin.url''] (Inr (0, [], [])),
       Git [''tag'', ''-l'', ''v1.0.1+2''] (Inr (0, ''v1.0.1+2'', []))],
      ())"
  by (simp add: effect_eval)

lemma same_base_dirty_run:
  "scenarios (scripted (dirty_repo ''v1.0.0+0'') (Some ''1.0.0'') token_only)
     ''main'' ''t0k'' [] ''1.0.0'' (Some ''1.0.0+0'') ()
   = (Inr (),
      [Warning ''Version 1.0.0 equals previous tag 1.0.0+0'',
       WritePubspec ''1.0.1+1'' None,
       Git [''config'', ''--local'', ''user.email'', ''action@github.com''] (Inr (0, [], [])),
       Git [''config'', ''--local'', ''user.name'', ''GitHub Action''] (Inr (0, [], [])),
       Git [''config'', ''--get'', ''remote.origin.url''] (Inr (0, [], [])),
       Git [''status'', ''--porcelain''] (Inr (0, '' M pubspec.yaml'', [])),
       Git [''add'', ''pubspec.yaml''] (Inr (0, [], [])),
       Git [''commit'', ''-m'', defaultCommitMessage ''1.0.1+1'' ''1.0.0''] (Inr (0, [], [])),
       Git [''push'', ''origin'', ''HEAD:main''] (Inr (0, [], [])),
       Git [''config'', ''--local'', ''user.email'', ''action@github.com''] (Inr (0, [], [])),
       Git [''config'', ''--local'', ''user.name'', ''GitHub Action''] (Inr (0, [], [])),
       Git [''config'', ''--get'', ''remote.origin.url''] (Inr (0, [], [])),
       Git [''tag'', ''-l'', ''v1.0.1+1''] (Inr (0, [], [])),
       Git [''tag'', ''-a'', ''v1.0.1+1'', ''-m'', ''Release v1.0.1+1''] (Inr (0, [], [])),
       Git [''push'', ''origin'', ''v1.0.1+1''] (Inr (0, [], [])),
       SetOutput ''previous-version'' ''1.0.0+0'',
       SetOutput ''current-version'' ''1.0.1+1'',
       SetOutput ''version-updated'' ''true'',
       SetOutput ''new-version'' ''1.0.1+1''],
      ())"
  by (simp add: effect_eval versions_eval)

lemma invalid_base_run:
  "run (scripted (answers_of [([''tag'', ''--sort=-version:refname''], (0, ''v1.0''))])
          (Some ''1.0'') token_only) ()
   = (Inr (),
      [Git [''fetch'', ''--tags''] (Inr (0, [], [])),
       Git [''tag'', ''--sort=-version:refname''] (Inr (0, ''v1.0'', [])),
       SetFailed ''Action failed: Invalid Version: 1.0''],
      ())"
  by (simp add: effect_eval versions_eval)




lemma bootstrap_run:
  "run (scripted (answers_of []) (Some ''1.0.0+1'') token_only) ()
   = (Inr (),
      [Git [''fetch'', ''--tags''] (Inr (0, [], [])),
       Git [''tag'', ''--sort=-version:refname''] (Inr (0, [], [])),
       Git [''config'', ''--local'', ''user.email'', ''action@github.com''] (Inr (0, [], [])),
       Git [''config'', ''--local'', ''user.name'', ''GitHub Action''] (Inr (0, [], [])),
       Git [''config'', ''--get'', ''remote.origin.url''] (Inr (0, [], [])),
       Git [''tag'', ''-l'', ''v1.0.0+1''] (Inr (0, [], [])),
       Git [''tag'', ''-a'', ''v1.0.0+1'', ''-m'', ''Release v1.0.0+1''] (Inr (0, [], [])),
       Git [''push'', ''origin'', ''v1.0.0+1''] (Inr (0, [], [])),
       SetOutput ''previous-version'' ''none'',
       SetOutput ''current-version'' ''1.0.0+1'',
       SetOutput ''version-updated'' ''false'',
       SetOutput ''new-version'' ''1.0.0+1''],
      ())"
  by (simp add: effect_eval)


lemma invalid_base_scenarios:
  "scenarios (scripted (dirty_repo ''v1.0'') (Some ''1.0'') token_only)
     ''main'' ''t0k'' [] ''1.0'' (Some ''1.0'') ()
   = (Inl (TypeError ''Invalid Version: 1.0''), [], ())"
  by (simp add: effect_eval versions_eval)

lemmas obs_eval = failed_def answered_def some_output_def no_output_def exit_ok_def
  marker_ensured_def commit_messages_Git output_of_SetOutput trim_def is_js_space_def
  commands_within_def

theorem scenarios_plan_witness:
  "tag_only_run
     (result_of (scenarios (scripted (answers_of []) (Some ''1.0.0+1'') token_only)
                   ''main'' ''t0k'' [] ''1.0.0+1'' None) ())
     (events_of (scenarios (scripted (answers_of []) (Some ''1.0.0+1'') token_only)
                   ''main'' ''t0k'' [] ''1.0.0+1'' None) ())
     ''1.0.0+1''
   \<and> bump_run
     (result_of (scenarios (scripted (dirty_repo ''v1.0.0+1'') (Some ''1.0.0+1'') token_only)
                   ''main'' ''t0k'' [] ''1.0.0+1'' (Some ''1.0.0+1'')) ())
     (events_of (scenarios (scripted (dirty_repo ''v1.0.0+1'') (Some ''1.0.0+1'') token_only)
                   ''main'' ''t0k'' [] ''1.0.0+1'' (Some ''1.0.0+1'')) ())
     ''1.0.1+2''
   \<and> bump_run
     (result_of (scenarios (scripted (dirty_repo ''v1.5.3+15'') (Some ''1.0.0+1'') token_only)
                   ''main'' ''t0k'' [] ''1.0.0+1'' (Some ''1.5.3+15'')) ())
     (events_of (scenarios (scripted (dirty_repo ''v1.5.3+15'') (Some ''1.0.0+1'') token_only)
                   ''main'' ''t0k'' [] ''1.0.0+1'' (Some ''1.5.3+15'')) ())
     ''1.5.4+16''
   \<and> tag_only_run
     (result_of (scenarios (scripted (dirty_repo ''v1.5.3+15'') (Some ''1.5.4+16'') token_only)
                   ''main'' ''t0k'' [] ''1.5.4+16'' (Some ''1.5.3+15'')) ())
     (events_of (scenarios (scripted (dirty_repo ''v1.5.3+15'') (Some ''1.5.4+16'') token_only)
                   ''main'' ''t0k'' [] ''1.5.4+16'' (Some ''1.5.3+15'')) ())
     ''1.5.4+16''
   \<and> succeeded
     (result_of (scenarios (scripted (dirty_repo ''v1.0.0+1'') (Some ''1.0.0+1'') token_only)
                   ''main'' ''t0k'' [] ''1.0.0+1'' (Some ''1.0.0+1'')) ())
   \<and> \<not> failed
     (events_of (scenarios (scripted (dirty_repo ''v1.0.0+1'') (Some ''1.0.0+1'') token_only)
                   ''main'' ''t0k'' [] ''1.0.0+1'' (Some ''1.0.0+1'')) ())
   \<and> commit_messages
     (events_of (scenarios (scripted (dirty_repo ''v1.0.0+1'') (Some ''1.0.0+1'') token_only)
                   ''main'' ''t0k'' [] ''1.0.0+1'' (Some ''1.0.0+1'')) ())
     = [defaultCommitMessage ''1.0.1+2'' ''1.0.0+1'']
   \<and> result_of (scenarios (scripted (dirty_repo ''v1.0'') (Some ''1.0'') token_only)
                   ''main'' ''t0k'' [] ''1.0'' (Some ''1.0'')) ()
     = Inl (TypeError ''Invalid Version: 1.0'')"
proof -
  have a: "tag_only_run (Inr ())
     (events_of (scenarios (scripted (answers_of []) (Some ''1.0.0+1'') token_only)
                   ''main'' ''t0k'' [] ''1.0.0+1'' None) ()) ''1.0.0+1''"
    using scenarios_plan [OF no_tag_run] by (simp add: events_of_def no_tag_run)
  have b: "bump_run (Inr ())
     (events_of (scenarios (scripted (dirty_repo ''v1.0.0+1'') (Some ''1.0.0+1'') token_only)
                   ''main'' ''t0k'' [] ''1.0.0+1'' (Some ''1.0.0+1'')) ()) ''1.0.1+2''"
    using scenarios_plan [OF same_dirty_run]
    by (simp add: events_of_def same_dirty_run versions_eval)
  have c: "bump_run (Inr ())
     (events_of (scenarios (scripted (dirty_repo ''v1.5.3+15'') (Some ''1.0.0+1'') token_only)
                   ''main'' ''t0k'' [] ''1.0.0+1'' (Some ''1.5.3+15'')) ()) ''1.5.4+16''"
    using scenarios_plan [OF lower_dirty_run]
    by (simp add: events_of_def lower_dirty_run versions_eval)
  have d: "tag_only_run (Inr ())
     (events_of (scenarios (scripted (dirty_repo ''v1.5.3+15'') (Some ''1.5.4+16'') token_only)
                   ''main'' ''t0k'' [] ''1.5.4+16'' (Some ''1.5.3+15'')) ()) ''1.5.4+16''"
    using scenarios_plan [OF higher_run]
    by (simp add: events_of_def higher_run versions_eval)
  have e: "Inl (TypeError ''Invalid Version: 1.0'') = Inl (TypeError ''Invalid Version: 1.0'')
           \<and> ([] :: event list) = []"
    using scenarios_plan [OF invalid_base_scenarios] by (simp add: versions_eval)
  show ?thesis
    using a b c d e
    by (simp add: result_of_def events_of_def no_tag_run same_dirty_run lower_dirty_run
        higher_run invalid_base_scenarios obs_eval)
qed

theorem scenarios_throw_counterexample:
  "scenarios (scripted (dirty_repo ''v1.0'') (Some ''1.0'') token_only)
     ''main'' ''t0k'' [] ''1.0'' (Some ''1.0'') ()
   = (Inl (TypeError ''Invalid Version: 1.0''), [], ())
   \<and> events_of (run (scripted (answers_of [([''tag'', ''--sort=-version:refname''],
                                              (0, ''v1.0''))])
                      (Some ''1.0'') token_only)) ()
     = [Git [''fetch'', ''--tags''] (Inr (0, [], [])),
        Git [''tag'', ''--sort=-version:refname''] (Inr (0, ''v1.0'', [])),
        SetFailed ''Action failed: Invalid Version: 1.0'']"
  by (simp add: invalid_base_scenarios invalid_base_run events_of_def)

theorem commit_message_baseline_witness:
  "commit_messages
     (events_of (scenarios (scripted (dirty_repo ''v1.0.0+1'') (Some ''1.0.0+1'') token_only)
                   ''main'' ''t0k'' [] ''1.0.0+1'' (Some ''1.0.0+1'')) ())
     = [defaultCommitMessage ''1.0.1+2'' ''1.0.0+1'']
   \<and> commit_messages
     (events_of (scenarios (scripted (dirty_repo ''v1.5.3+15'') (Some ''1.0.0+1'') token_only)
                   ''main'' ''t0k'' [] ''1.0.0+1'' (Some ''1.5.3+15'')) ())
     = [defaultCommitMessage ''1.5.4+16'' ''1.5.3+15'']
   \<and> output_of
     (events_of (scenarios (scripted (dirty_repo ''v1.5.3+15'') (Some ''1.0.0+1'') token_only)
                   ''main'' ''t0k'' [] ''1.0.0+1'' (Some ''1.5.3+15'')) ())
     ''previous-version'' = Some ''1.5.3+15''
   \<and> output_of
     (events_of (scenarios (scripted (answers_of []) (Some ''1.0.0+1'') token_only)
                   ''main'' ''t0k'' [] ''1.0.0+1'' None) ())
     ''previous-version'' = Some ''none''
   \<and> commit_messages
     (events_of (scenarios (scripted (dirty_repo ''v1.5.3+15'') (Some ''1.5.4+16'') token_only)
                   ''main'' ''t0k'' [] ''1.5.4+16'' (Some ''1.5.3+15'')) ())
     = []"
proof -
  note w = commit_message_baseline [OF same_dirty_run] commit_message_baseline [OF lower_dirty_run]
    commit_message_baseline [OF no_tag_run] commit_message_baseline [OF higher_run]
  show ?thesis
    using w
    by (simp add: events_of_def same_dirty_run lower_dirty_run no_tag_run higher_run
        versions_eval obs_eval)
qed

theorem commit_message_cites_declared_counterexample:
  "compareVersions (Some ''1.0.0'') (Some ''1.0.0+0'') = Inr 0
   \<and> commit_messages
       (events_of (scenarios (scripted (dirty_repo ''v1.0.0+0'') (Some ''1.0.0'') token_only)
                     ''main'' ''t0k'' [] ''1.0.0'' (Some ''1.0.0+0'')) ())
     = [defaultCommitMessage ''1.0.1+1'' ''1.0.0'']
   \<and> defaultCommitMessage ''1.0.1+1'' ''1.0.0'' \<noteq> defaultCommitMessage ''1.0.1+1'' ''1.0.0+0''
   \<and> output_of
       (events_of (scenarios (scripted (answers_of []) (Some ''1.0.0+1'') token_only)
                     ''main'' ''t0k'' [] ''1.0.0+1'' None) ())
       ''previous-version'' = Some ''none''"
  by (simp add: events_of_def same_base_dirty_run no_tag_run versions_eval obs_eval
      defaultCommitMessage_def)

theorem clean_tree_rerun_witness:
  "succeeded
     (result_of (scenarios (scripted (applied_repo ''v1.0.0+1'' ''v1.0.1+2'') (Some ''1.0.0+1'') token_only)
                   ''main'' ''t0k'' [] ''1.0.0+1'' (Some ''1.0.0+1'')) ())
   \<and> answered
     (events_of (scenarios (scripted (applied_repo ''v1.0.0+1'' ''v1.0.1+2'') (Some ''1.0.0+1'') token_only)
                   ''main'' ''t0k'' [] ''1.0.0+1'' (Some ''1.0.0+1'')) ())
     [''status'', ''--porcelain''] no_output
   \<and> [''push'', ''origin'', ''HEAD:main'']
     \<notin> set (git_calls
         (events_of (scenarios (scripted (applied_repo ''v1.0.0+1'' ''v1.0.1+2'') (Some ''1.0.0+1'') token_only)
                   ''main'' ''t0k'' [] ''1.0.0+1'' (Some ''1.0.0+1'')) ()))
   \<and> output_of
     (events_of (scenarios (scripted (applied_repo ''v1.0.0+1'' ''v1.0.1+2'') (Some ''1.0.0+1'') token_only)
                   ''main'' ''t0k'' [] ''1.0.0+1'' (Some ''1.0.0+1'')) ())
     ''version-updated'' = Some ''true''
   \<and> succeeded
     (result_of (createAndPushTag
                   (scripted (applied_repo ''v1.0.0+1'' ''v1.0.1+2'') (Some ''1.0.0+1'') token_only)
                   ''1.0.1+2'' ''t0k'') ())
   \<and> answered
     (events_of (createAndPushTag
                   (scripted (applied_repo ''v1.0.0+1'' ''v1.0.1+2'') (Some ''1.0.0+1'') token_only)
                   ''1.0.1+2'' ''t0k'') ())
     [''tag'', ''-l'', ''v1.0.1+2''] some_output
   \<and> [''push'', ''origin'', ''v1.0.1+2'']
     \<notin> set (git_calls
         (events_of (createAndPushTag
                   (scripted (applied_repo ''v1.0.0+1'' ''v1.0.1+2'') (Some ''1.0.0+1'') token_only)
                   ''1.0.1+2'' ''t0k'') ()))"
proof -
  note w = clean_tree_rerun
    [where C = "scripted (applied_repo ''v1.0.0+1'' ''v1.0.1+2'') (Some ''1.0.0+1'') token_only"
       and branch = "''main''" and token = "''t0k''" and customMessage = "[]"
       and cur = "''1.0.0+1''" and p = "''1.0.0+1''" and w = "()" and c = 0
       and v = "''1.0.1+2''" and ?w2.0 = "()"]
  show ?thesis
    using w
    by (simp add: result_of_def events_of_def same_clean_run existing_tag_run versions_eval
        obs_eval)
qed

theorem rerun_reports_updated_counterexample:
  "output_of
     (events_of (scenarios (scripted (applied_repo ''v1.0.0+1'' ''v1.0.1+2'') (Some ''1.0.0+1'') token_only)
                   ''main'' ''t0k'' [] ''1.0.0+1'' (Some ''1.0.0+1'')) ())
     ''version-updated'' = Some ''true''
   \<and> [''tag'', ''-l'', ''v1.0.1+2'']
     \<notin> set (git_calls
         (events_of (scenarios (scripted (applied_repo ''v1.0.0+1'' ''v1.0.1+2'') (Some ''1.0.0+1'') token_only)
                   ''main'' ''t0k'' [] ''1.0.0+1'' (Some ''1.0.0+1'')) ()))"
  by (simp add: events_of_def same_clean_run obs_eval)



theorem run_outputs_agree_witness:
  "\<not> failed (events_of (run (scripted (answers_of []) (Some ''1.0.0+1'') token_only)) ())
   \<and> output_of (events_of (run (scripted (answers_of []) (Some ''1.0.0+1'') token_only)) ())
       ''current-version'' = Some ''1.0.0+1''
   \<and> output_of (events_of (run (scripted (answers_of []) (Some ''1.0.0+1'') token_only)) ())
       ''new-version'' = Some ''1.0.0+1''
   \<and> output_of (events_of (run (scripted (answers_of []) (Some ''1.0.0+1'') token_only)) ())
       ''version-updated'' = Some ''false''"
proof -
  have nf: "\<not> failed (events_of (run (scripted (answers_of []) (Some ''1.0.0+1'') token_only)) ())"
    by (simp add: events_of_def bootstrap_run obs_eval)
  have "\<not> failed (fst (snd (run (scripted (answers_of []) (Some ''1.0.0+1'') token_only) ())))"
    using nf by (simp add: events_of_def)
  then have "\<not> failed [Git [''fetch'', ''--tags''] (Inr (0, [], [])),
       Git [''tag'', ''--sort=-version:refname''] (Inr (0, [], [])),
       Git [''config'', ''--local'', ''user.email'', ''action@github.com''] (Inr (0, [], [])),
       Git [''config'', ''--local'', ''user.name'', ''GitHub Action''] (Inr (0, [], [])),
       Git [''config'', ''--get'', ''remote.origin.url''] (Inr (0, [], [])),
       Git [''tag'', ''-l'', ''v1.0.0+1''] (Inr (0, [], [])),
       Git [''tag'', ''-a'', ''v1.0.0+1'', ''-m'', ''Release v1.0.0+1''] (Inr (0, [], [])),
       Git [''push'', ''origin'', ''v1.0.0+1''] (Inr (0, [], [])),
       SetOutput ''previous-version'' ''none'',
       SetOutput ''current-version'' ''1.0.0+1'',
       SetOutput ''version-updated'' ''false'',
       SetOutput ''new-version'' ''1.0.0+1'']"
    by (simp add: bootstrap_run)
  from run_outputs_agree [OF bootstrap_run this] nf
  show ?thesis
    by (simp add: events_of_def bootstrap_run obs_eval)
qed

end
